theory Spec2Isabelle
  imports Complex_Main "HOL-Library.Log_Nat"
begin

section \<open>JavaScript strings\<close>

text \<open>
  A JavaScript string is modelled as a \<^typ>\<open>string\<close>: a list of code units, each
  below 256. A value that may be \<open>undefined\<close> is an \<open>option\<close>; the falsy strings of
  JavaScript are then \<open>undefined\<close> and the empty string.
\<close>

definition truthy :: "string option \<Rightarrow> bool" where
  "truthy v = (case v of None \<Rightarrow> False | Some s \<Rightarrow> s \<noteq> [])"

text \<open>\<open>a || b\<close> on values that may be undefined.\<close>

definition js_or :: "string option \<Rightarrow> string option \<Rightarrow> string option" where
  "js_or a b = (if truthy a then a else b)"

definition is_upper :: "char \<Rightarrow> bool" where
  "is_upper c = (let n = of_char c :: nat in
     (65 \<le> n \<and> n \<le> 90) \<or> (192 \<le> n \<and> n \<le> 222 \<and> n \<noteq> 215))"

definition to_lower :: "char \<Rightarrow> char" where
  "to_lower c = (if is_upper c then char_of (of_char c + (32::nat)) else c)"

text \<open>\<open>String.prototype.toLowerCase\<close>.\<close>

definition toLowerCase :: "string \<Rightarrow> string" where
  "toLowerCase s = map to_lower s"

definition is_digit :: "char \<Rightarrow> bool" where
  "is_digit c = (let n = of_char c :: nat in 48 \<le> n \<and> n \<le> 57)"

text \<open>The class \<open>\w\<close> of a regular expression: letters, digits and the underscore.\<close>

definition is_word :: "char \<Rightarrow> bool" where
  "is_word c = (let n = of_char c :: nat in
     (48 \<le> n \<and> n \<le> 57) \<or> (65 \<le> n \<and> n \<le> 90) \<or> (97 \<le> n \<and> n \<le> 122) \<or> n = 95)"

text \<open>
  The class \<open>\s\<close>, which is also what \<open>trim\<close> strips: tab, line feed, vertical tab,
  form feed, carriage return, space and the no-break space.
\<close>

definition is_space :: "char \<Rightarrow> bool" where
  "is_space c = (of_char c \<in> {9, 10, 11, 12, 13, 32, 160 :: nat})"

fun starts_with :: "string \<Rightarrow> string \<Rightarrow> bool" where
  "starts_with s [] = True"
| "starts_with [] (k # ks) = False"
| "starts_with (c # cs) (k # ks) = (c = k \<and> starts_with cs ks)"

text \<open>\<open>String.prototype.includes\<close> (the name is a keyword of Isabelle): the second string occurs somewhere in the first.\<close>

fun str_includes :: "string \<Rightarrow> string \<Rightarrow> bool" where
  "str_includes [] k = (k = [])"
| "str_includes (c # cs) k = (starts_with (c # cs) k \<or> str_includes cs k)"

definition trim :: "string \<Rightarrow> string" where
  "trim s = rev (dropWhile is_space (rev (dropWhile is_space s)))"

text \<open>
  \<open>s.split(/\s+/)\<close>: the pieces between the maximal runs of white space. The first
  argument collects the current piece, reversed.
\<close>

function split_ws :: "string \<Rightarrow> string \<Rightarrow> string list" where
  "split_ws cur [] = [rev cur]"
| "split_ws cur (c # cs) =
     (if is_space c then rev cur # split_ws [] (dropWhile is_space cs)
      else split_ws (c # cur) cs)"
  by pat_completeness auto
termination
  by (relation "measure (\<lambda>(cur, s). length s)")
     (auto intro: le_imp_less_Suc length_dropWhile_le)

section \<open>The quality classifier (utils/checkinQuality)\<close>

definition STRONG_THRESHOLD :: rat where
  "STRONG_THRESHOLD = 80"

definition MEDIUM_THRESHOLD :: rat where
  "MEDIUM_THRESHOLD = 40"

text \<open>\<open>Object.values(KEYWORD_GROUPS)\<close>, in the order of the literal: progress, plans, blockers.\<close>

definition KEYWORD_GROUPS :: "string list list" where
  "KEYWORD_GROUPS =
    [[''progress'', ''completed'', ''finished'', ''shipped'', ''done'', ''achieved''],
     [''plan'', ''next'', ''today'', ''tomorrow'', ''focus''],
     [''blocker'', ''stuck'', ''issue'', ''problem'', ''waiting'', ''help'']]"

definition countWords :: "string \<Rightarrow> nat" where
  "countWords text = length (filter (\<lambda>w. w \<noteq> []) (split_ws [] (trim text)))"

text \<open>\<open>keywords.some((keyword) => lower.includes(keyword))\<close>.\<close>

fun some_keyword :: "string \<Rightarrow> string list \<Rightarrow> bool" where
  "some_keyword lower [] = False"
| "some_keyword lower (k # ks) = (str_includes lower k \<or> some_keyword lower ks)"

text \<open>The \<open>forEach\<close> over the groups, with the running score as accumulator.\<close>

fun scoreCompleteness_loop :: "string \<Rightarrow> string list list \<Rightarrow> nat \<Rightarrow> nat" where
  "scoreCompleteness_loop lower [] score = score"
| "scoreCompleteness_loop lower (g # gs) score =
     scoreCompleteness_loop lower gs (if some_keyword lower g then score + 1 else score)"

definition scoreCompleteness :: "string \<Rightarrow> nat" where
  "scoreCompleteness text = scoreCompleteness_loop (toLowerCase text) KEYWORD_GROUPS 0"

text \<open>
  The matches of \<open>/\b\d+\b/g\<close>, scanned from the left. The flag says whether the
  code unit before the current position is a word character. A match starts at a digit
  that follows no word character, takes the whole run of digits, and needs the run to
  be followed by no word character; after a match the scan goes on behind it, after a
  failure one code unit further.
\<close>

function number_matches :: "bool \<Rightarrow> string \<Rightarrow> string list" where
  "number_matches prev [] = []"
| "number_matches prev (c # cs) =
     (if is_digit c \<and> \<not> prev
         \<and> (case dropWhile is_digit cs of [] \<Rightarrow> True | d # _ \<Rightarrow> \<not> is_word d)
      then (c # takeWhile is_digit cs) # number_matches True (dropWhile is_digit cs)
      else number_matches (is_word c) cs)"
  by pat_completeness auto
termination
  by (relation "measure (\<lambda>(prev, s). length s)")
     (auto intro: le_imp_less_Suc length_dropWhile_le)

text \<open>
  The number of matches of \<open>/[\n\r]-|\*/g\<close>: a line feed or carriage return followed
  by a minus sign, or an asterisk anywhere.
\<close>

fun bulletIndicators :: "string \<Rightarrow> nat" where
  "bulletIndicators [] = 0"
| "bulletIndicators [c] = (if c = CHR ''*'' then 1 else 0)"
| "bulletIndicators (c # d # cs) =
     (if (c = CHR 0x0A \<or> c = CHR 0x0D) \<and> d = CHR ''-'' then 1 + bulletIndicators cs
      else if c = CHR ''*'' then 1 + bulletIndicators (d # cs)
      else bulletIndicators (d # cs))"

definition scoreSpecificity :: "string \<Rightarrow> nat" where
  "scoreSpecificity text = min (length (number_matches False text) + bulletIndicators text) 3"

text \<open>
  The score is a multiple of a quarter below 106, which a JavaScript number holds
  exactly, so it is a rational here. The guard \<open>!text\<close> holds of \<open>undefined\<close> and
  of the empty string.
\<close>

definition calculateQualityScore :: "string option \<Rightarrow> rat" where
  "calculateQualityScore text =
     (case text of
        None \<Rightarrow> 0
      | Some t \<Rightarrow>
          if t = [] then 0
          else let wordCount = countWords t;
                   completeness = of_nat (scoreCompleteness t) * 15;
                   specificity = of_nat (scoreSpecificity t) * 10;
                   lengthScore = of_nat (min wordCount 120) * (1 / 4)
               in completeness + specificity + lengthScore)"

definition classifyCheckinQuality :: "string option \<Rightarrow> string" where
  "classifyCheckinQuality text =
     (let score = calculateQualityScore text in
      if score \<ge> STRONG_THRESHOLD then ''Strong''
      else if score \<ge> MEDIUM_THRESHOLD then ''Medium''
      else ''Weak'')"

subsection \<open>The classifier as the specification words it\<close>

text \<open>
  The counts of the specification, each written from its words and not from the
  functions of the source.

  The number of keyword groups of which at least one keyword occurs in the text.
\<close>

definition spec_categories_present :: "string \<Rightarrow> nat" where
  "spec_categories_present text =
     length (filter (list_ex (str_includes (toLowerCase text))) KEYWORD_GROUPS)"

text \<open>
  The word count: a word is a maximal run of code units that are not white space, so it
  starts at a code unit that is not white space and follows white space or nothing.
  \<open>word_starts p s\<close> counts the words that start in \<open>s\<close> when \<open>p\<close> stands before it.
\<close>

definition word_starts :: "char \<Rightarrow> string \<Rightarrow> nat" where
  "word_starts p s = length (filter (\<lambda>(p, c). is_space p \<and> \<not> is_space c) (zip (p # s) s))"

definition spec_word_count :: "string \<Rightarrow> nat" where
  "spec_word_count text = word_starts CHR '' '' text"

text \<open>
  The digit tokens: a token is a maximal run of word characters, and a digit token is a
  token made of digits only.
\<close>

function word_tokens :: "string \<Rightarrow> string list" where
  "word_tokens [] = []"
| "word_tokens (c # cs) =
     (if is_word c then (c # takeWhile is_word cs) # word_tokens (dropWhile is_word cs)
      else word_tokens cs)"
  by pat_completeness auto
termination
  by (relation "measure length") (auto intro: le_imp_less_Suc length_dropWhile_le)

definition spec_digit_tokens :: "string \<Rightarrow> nat" where
  "spec_digit_tokens text = length (filter (list_all is_digit) (word_tokens text))"

text \<open>
  The bullet-marker lines: a line begins at the start of the text and after every line
  feed or carriage return, and it is a bullet-marker line when it begins with a minus
  sign or an asterisk.
\<close>

definition is_line_break :: "char \<Rightarrow> bool" where
  "is_line_break c = (c = CHR 0x0A \<or> c = CHR 0x0D)"

definition spec_bullet_lines :: "string \<Rightarrow> nat" where
  "spec_bullet_lines text =
     length (filter (\<lambda>(p, c). is_line_break p \<and> (c = CHR ''-'' \<or> c = CHR ''*''))
       (zip (CHR 0x0A # text) text))"

text \<open>The score and the label as the specification gives them.\<close>

definition spec_score_by_lines :: "string option \<Rightarrow> rat" where
  "spec_score_by_lines text =
     (case text of
        None \<Rightarrow> 0
      | Some t \<Rightarrow> 15 * of_nat (spec_categories_present t)
                 + 10 * of_nat (min 3 (spec_digit_tokens t + spec_bullet_lines t))
                 + (1 / 4) * of_nat (min 120 (spec_word_count t)))"

text \<open>
  The bullet indicators that the source counts in place of the bullet-marker lines: the
  line breaks that a minus sign follows directly, and the asterisks, wherever they stand.
\<close>

definition spec_bullet_indicators :: "string \<Rightarrow> nat" where
  "spec_bullet_indicators text =
     length (filter (\<lambda>(c, d). is_line_break c \<and> d = CHR ''-'') (zip text (tl text)))
       + length (filter (\<lambda>c. c = CHR ''*'') text)"

definition spec_signals :: "string \<Rightarrow> nat" where
  "spec_signals text = spec_digit_tokens text + spec_bullet_indicators text"

definition spec_score :: "string option \<Rightarrow> rat" where
  "spec_score text =
     (case text of
        None \<Rightarrow> 0
      | Some t \<Rightarrow> 15 * of_nat (spec_categories_present t)
                 + 10 * of_nat (min 3 (spec_signals t))
                 + (1 / 4) * of_nat (min 120 (spec_word_count t)))"

definition spec_label :: "rat \<Rightarrow> string" where
  "spec_label score = (if score \<ge> 80 then ''Strong'' else if score \<ge> 40 then ''Medium'' else ''Weak'')"

text \<open>The order of the labels: Weak below Medium below Strong.\<close>

definition label_rank :: "string \<Rightarrow> nat" where
  "label_rank l = (if l = ''Strong'' then 2 else if l = ''Medium'' then 1 else 0)"

section \<open>Dates: the part of dayjs the agent uses\<close>

text \<open>
  The agent reads every date through the library dayjs. A dayjs value is an instant,
  in milliseconds since the epoch, or the Invalid Date. The functions below follow the
  definitions of ECMAScript's Date and of dayjs; local time is taken to be UTC. The agent's
  functions take dates after \<open>dayjs(...)\<close> has read them.
\<close>

datatype dayjs = Valid int | Invalid

definition msPerDay :: int where
  "msPerDay = 86400000"

text \<open>ECMAScript's TimeClip: an instant beyond 100 million days from the epoch is invalid.\<close>

definition time_clip :: "int \<Rightarrow> dayjs" where
  "time_clip t = (if \<bar>t\<bar> \<le> 8640000000000000 then Valid t else Invalid)"

definition Day :: "int \<Rightarrow> int" where
  "Day t = t div msPerDay"

definition DayFromYear :: "int \<Rightarrow> int" where
  "DayFromYear y =
     365 * (y - 1970) + (y - 1969) div 4 - (y - 1901) div 100 + (y - 1601) div 400"

definition InLeapYear :: "int \<Rightarrow> bool" where
  "InLeapYear y =
     (if y mod 4 \<noteq> 0 then False else if y mod 100 \<noteq> 0 then True else y mod 400 = 0)"

lemma div_succ:
  fixes a n :: int
  assumes n: "0 < n"
  shows "(a + 1) div n = a div n + (if (a + 1) mod n = 0 then 1 else 0)"
proof -
  define q r where "q = a div n" and "r = a mod n"
  have a: "a = n * q + r" and r: "0 \<le> r" "r < n"
    using n by (simp_all add: q_def r_def)
  show ?thesis
  proof (cases "r + 1 = n")
    case True
    then have e: "a + 1 = n * (q + 1) + 0"
      using a by (simp add: algebra_simps)
    have "(a + 1) div n = q + 1"
      using int_div_pos_eq [OF e] n by simp
    moreover have "(a + 1) mod n = 0"
      using int_mod_pos_eq [OF e] n by simp
    ultimately show ?thesis by (simp add: q_def)
  next
    case False
    then have b: "0 \<le> r + 1" "r + 1 < n" using r by simp_all
    have e: "a + 1 = n * q + (r + 1)"
      using a by simp
    have "(a + 1) div n = q"
      using int_div_pos_eq [OF e b] .
    moreover have "(a + 1) mod n = r + 1"
      using int_mod_pos_eq [OF e b] .
    ultimately show ?thesis using r by (simp add: q_def)
  qed
qed

lemma mod_shift: "0 < n \<Longrightarrow> k mod n = 0 \<Longrightarrow> (y - k) mod n = y mod n" for y n k :: int
  by (metis mod_diff_right_eq diff_zero)

lemma DayFromYear_step:
  "DayFromYear (y + 1) = DayFromYear y + (if InLeapYear y then 366 else 365)"
proof -
  have s4: "(y - 1968) div 4 = (y - 1969) div 4 + (if y mod 4 = 0 then 1 else 0)"
    using div_succ [of 4 "y - 1969"] mod_shift [of 4 1968 y] by simp
  have s100: "(y - 1900) div 100 = (y - 1901) div 100 + (if y mod 100 = 0 then 1 else 0)"
    using div_succ [of 100 "y - 1901"] mod_shift [of 100 1900 y] by simp
  have s400: "(y - 1600) div 400 = (y - 1601) div 400 + (if y mod 400 = 0 then 1 else 0)"
    using div_succ [of 400 "y - 1601"] mod_shift [of 400 1600 y] by simp
  have m1: "y mod 400 = 0 \<Longrightarrow> y mod 100 = 0" by auto
  have m2: "y mod 100 = 0 \<Longrightarrow> y mod 4 = 0" by auto
  have e: "y + 1 - 1969 = y - 1968" "y + 1 - 1901 = y - 1900" "y + 1 - 1601 = y - 1600"
    by simp_all
  show ?thesis
    unfolding DayFromYear_def InLeapYear_def e s4 s100 s400
    using m1 m2 by (simp split: if_splits)
qed

lemma DayFromYear_less: "DayFromYear (y - 1) < DayFromYear y"
  using DayFromYear_step [of "y - 1"] by (simp split: if_splits)

text \<open>
  ECMAScript's YearFromTime is the largest year that starts on the day or before it.
  The search goes down from a year that starts after the day.
\<close>

function year_search :: "int \<Rightarrow> int \<Rightarrow> int" where
  "year_search d y = (if DayFromYear y \<le> d then y else year_search d (y - 1))"
  by pat_completeness auto
termination
  by (relation "measure (\<lambda>(d, y). nat (DayFromYear y - d))")
     (use DayFromYear_less in \<open>auto simp: nat_less_iff\<close>)

definition YearFromDay :: "int \<Rightarrow> int" where
  "YearFromDay d = year_search d (1971 + (if d \<ge> 0 then d div 365 else d div 366))"

text \<open>The length of a month, the months counted from 0, and the days of the year before it.\<close>

definition DaysInMonth :: "bool \<Rightarrow> int \<Rightarrow> int" where
  "DaysInMonth leap m =
     (if m = 1 then (if leap then 29 else 28)
      else if m = 3 \<or> m = 5 \<or> m = 8 \<or> m = 10 then 30 else 31)"

definition DaysBeforeMonth :: "bool \<Rightarrow> int \<Rightarrow> int" where
  "DaysBeforeMonth leap m =
     (if m \<le> 0 then 0 else if m = 1 then 31
      else (if leap then 1 else 0) +
        (if m = 2 then 59 else if m = 3 then 90 else if m = 4 then 120
         else if m = 5 then 151 else if m = 6 then 181 else if m = 7 then 212
         else if m = 8 then 243 else if m = 9 then 273 else if m = 10 then 304 else 334))"

definition MonthFromDayInYear :: "bool \<Rightarrow> int \<Rightarrow> int" where
  "MonthFromDayInYear leap d =
     (let l = (if leap then 1 else 0) in
      if d < 31 then 0 else if d < 59 + l then 1 else if d < 90 + l then 2
      else if d < 120 + l then 3 else if d < 151 + l then 4 else if d < 181 + l then 5
      else if d < 212 + l then 6 else if d < 243 + l then 7 else if d < 273 + l then 8
      else if d < 304 + l then 9 else if d < 334 + l then 10 else 11)"

text \<open>ECMAScript's MakeDay: the month may lie outside the year and carries over.\<close>

definition MakeDay :: "int \<Rightarrow> int \<Rightarrow> int \<Rightarrow> int" where
  "MakeDay y m d =
     (let ym = y + m div 12; mn = m mod 12
      in DayFromYear ym + DaysBeforeMonth (InLeapYear ym) mn + d - 1)"

text \<open>
  \<open>new Date(y, m, d)\<close> at midnight: the constructor reads a year from 0 to 99 as
  1900 plus the year.
\<close>

definition new_Date :: "int \<Rightarrow> int \<Rightarrow> int \<Rightarrow> dayjs" where
  "new_Date y m d =
     time_clip (MakeDay (if 0 \<le> y \<and> y \<le> 99 then 1900 + y else y) m d * msPerDay)"

text \<open>The fields \<open>$y\<close>, \<open>$M\<close> (from 0), \<open>$D\<close> and \<open>$W\<close> (0 is Sunday) of a valid value.\<close>

definition year_of :: "int \<Rightarrow> int" where
  "year_of t = YearFromDay (Day t)"

definition month_of :: "int \<Rightarrow> int" where
  "month_of t =
     MonthFromDayInYear (InLeapYear (year_of t)) (Day t - DayFromYear (year_of t))"

definition date_of :: "int \<Rightarrow> int" where
  "date_of t =
     Day t - DayFromYear (year_of t)
       - DaysBeforeMonth (InLeapYear (year_of t)) (month_of t) + 1"

definition WeekDay :: "int \<Rightarrow> int" where
  "WeekDay t = (Day t + 4) mod 7"

definition isoWeekday :: "int \<Rightarrow> int" where
  "isoWeekday t = (if WeekDay t = 0 then 7 else WeekDay t)"

fun startOf_day :: "dayjs \<Rightarrow> dayjs" where
  "startOf_day (Valid t) = time_clip (t - t mod msPerDay)"
| "startOf_day Invalid = Invalid"

fun endOf_day :: "dayjs \<Rightarrow> dayjs" where
  "endOf_day (Valid t) = time_clip (t - t mod msPerDay + (msPerDay - 1))"
| "endOf_day Invalid = Invalid"

text \<open>\<open>startOf('month')\<close> is \<open>new Date($y, $M, 1)\<close>.\<close>

fun startOf_month :: "dayjs \<Rightarrow> dayjs" where
  "startOf_month (Valid t) = new_Date (year_of t) (month_of t) 1"
| "startOf_month Invalid = Invalid"

text \<open>\<open>endOf('month')\<close> is the end of the day \<open>new Date($y, $M + 1, 0)\<close>.\<close>

fun endOf_month :: "dayjs \<Rightarrow> dayjs" where
  "endOf_month (Valid t) = endOf_day (new_Date (year_of t) (month_of t + 1) 0)"
| "endOf_month Invalid = Invalid"

text \<open>\<open>add(n, 'day')\<close>; \<open>subtract(n, 'day')\<close> adds \<open>-n\<close>.\<close>

fun add_day :: "dayjs \<Rightarrow> int \<Rightarrow> dayjs" where
  "add_day (Valid t) n = time_clip (t + n * msPerDay)"
| "add_day Invalid n = Invalid"

text \<open>\<open>startOf('isoWeek')\<close>: back to Monday, then to the start of that day.\<close>

fun startOf_isoWeek :: "dayjs \<Rightarrow> dayjs" where
  "startOf_isoWeek (Valid t) = startOf_day (add_day (Valid t) (- (isoWeekday t - 1)))"
| "startOf_isoWeek Invalid = Invalid"

text \<open>
  \<open>a.diff(b, 'day')\<close>: the difference in days, truncated towards zero; \<open>None\<close> is NaN.
\<close>

fun diff_day :: "dayjs \<Rightarrow> dayjs \<Rightarrow> int option" where
  "diff_day (Valid a) (Valid b) =
     Some (if a - b < 0 then - ((b - a) div msPerDay) else (a - b) div msPerDay)"
| "diff_day _ _ = None"

text \<open>\<open>isSameOrAfter\<close> and \<open>isSameOrBefore\<close>: false as soon as one side is invalid.\<close>

fun isSameOrAfter :: "dayjs \<Rightarrow> dayjs \<Rightarrow> bool" where
  "isSameOrAfter (Valid a) (Valid b) = (a \<ge> b)"
| "isSameOrAfter _ _ = False"

fun isSameOrBefore :: "dayjs \<Rightarrow> dayjs \<Rightarrow> bool" where
  "isSameOrBefore (Valid a) (Valid b) = (a \<le> b)"
| "isSameOrBefore _ _ = False"

subsection \<open>Rendering and reading dates\<close>

fun digits_of :: "nat \<Rightarrow> string" where
  "digits_of n =
     (if n < 10 then [char_of (48 + n)] else digits_of (n div 10) @ [char_of (48 + n mod 10)])"

text \<open>\<open>String(n)\<close> for an integer.\<close>

definition String_of_int :: "int \<Rightarrow> string" where
  "String_of_int i = (if i < 0 then CHR ''-'' # digits_of (nat (- i)) else digits_of (nat i))"

definition padStart :: "nat \<Rightarrow> string \<Rightarrow> string" where
  "padStart n s = replicate (n - length s) CHR ''0'' @ s"

definition ISO_DATE :: "dayjs \<Rightarrow> string" where
  "ISO_DATE d =
     (case d of
        Invalid \<Rightarrow> ''Invalid Date''
      | Valid t \<Rightarrow>
          padStart 4 (String_of_int (year_of t)) @ ''-''
            @ padStart 2 (String_of_int (month_of t + 1)) @ ''-''
            @ padStart 2 (String_of_int (date_of t)))"

definition month_names :: "string list" where
  "month_names = [''January'', ''February'', ''March'', ''April'', ''May'', ''June'', ''July'',
     ''August'', ''September'', ''October'', ''November'', ''December'']"

text \<open>\<open>format('MMMM YYYY')\<close>.\<close>

definition MMMM_YYYY :: "dayjs \<Rightarrow> string" where
  "MMMM_YYYY d =
     (case d of
        Invalid \<Rightarrow> ''Invalid Date''
      | Valid t \<Rightarrow>
          month_names ! nat (month_of t) @ '' '' @ padStart 4 (String_of_int (year_of t)))"

fun number_of_digits :: "string \<Rightarrow> nat \<Rightarrow> nat" where
  "number_of_digits [] acc = acc"
| "number_of_digits (c # cs) acc = number_of_digits cs (10 * acc + (of_char c - 48))"

text \<open>\<open>Number(s)\<close> for a string of digits.\<close>

definition Number_of :: "string \<Rightarrow> nat" where
  "Number_of s = number_of_digits s 0"

text \<open>
  \<open>dayjs(s)\<close> for a string that \<open>format('YYYY-MM-DD')\<close> has rendered, which is the
  only kind of string the agent itself reads back: four digits, two digits and two
  digits with minus signs between give the midnight \<open>new Date(y, m - 1, d)\<close>; the
  string \<open>Invalid Date\<close>, and any other, gives the Invalid Date.
\<close>

definition dayjs_of_string :: "string \<Rightarrow> dayjs" where
  "dayjs_of_string s =
     (if length s = 10 \<and> s ! 4 = CHR ''-'' \<and> s ! 7 = CHR ''-''
         \<and> list_all is_digit (take 4 s) \<and> list_all is_digit (take 2 (drop 5 s))
         \<and> list_all is_digit (drop 8 s)
      then new_Date (int (Number_of (take 4 s))) (int (Number_of (take 2 (drop 5 s))) - 1)
             (int (Number_of (drop 8 s)))
      else Invalid)"

text \<open>
  \<open>dayjs(s, 'YYYY-MM-DD', true)\<close>: strict reading keeps the date only when rendering
  it gives the string back.
\<close>

definition dayjs_strict :: "string \<Rightarrow> dayjs" where
  "dayjs_strict s = (if ISO_DATE (dayjs_of_string s) = s then dayjs_of_string s else Invalid)"

section \<open>The agent (agent/checkinAgent)\<close>

subsection \<open>Data\<close>

text \<open>
  A check-in record as the controller lets it through: \<open>message_id\<close>, \<open>user_id\<close> and
  \<open>timestamp\<close> are present, the other fields may be undefined. The timestamp is kept
  as dayjs reads it. The quality is an optional label before the agent is built and a
  label afterwards.
\<close>

record 'q checkin =
  message_id :: string
  user_id :: string
  user_name :: "string option"
  timestamp :: dayjs
  message_content :: "string option"
  quality :: 'q

type_synonym raw_checkin = "string option checkin"

type_synonym entry = "string checkin"

text \<open>An element of the roster argument: a string, an object, or anything else.\<close>

record roster_object =
  r_id :: "string option"
  r_user_id :: "string option"
  r_email :: "string option"
  r_name :: "string option"
  r_display_name :: "string option"
  r_real_name :: "string option"

datatype roster_input = RosterString string | RosterObject roster_object | RosterOther

text \<open>The object \<open>{ id, name }\<close> of a roster entry and of a user found in the check-ins.\<close>

record student =
  student_id :: "string option"
  student_name :: "string option"

record agent =
  checkins :: "entry list"
  roster :: "student list"

datatype error = TypeError | Error string

text \<open>
  A date argument that a caller passes as it is: whether the value is truthy, and what
  \<open>dayjs(value)\<close> reads from it. A dayjs object is truthy.
\<close>

record datearg =
  is_truthy :: bool
  as_dayjs :: dayjs

definition dayjs_object :: "dayjs \<Rightarrow> datearg" where
  "dayjs_object d = \<lparr>is_truthy = True, as_dayjs = d\<rparr>"

text \<open>
  The property names that every object literal inherits from \<open>Object.prototype\<close>;
  reading one of them from an object that has no such key of its own yields a function
  or an object, which is truthy.
\<close>

definition Object_prototype_keys :: "string list" where
  "Object_prototype_keys =
     [''constructor'', ''__proto__'', ''hasOwnProperty'', ''isPrototypeOf'',
      ''propertyIsEnumerable'', ''toLocaleString'', ''toString'', ''valueOf'',
      ''__defineGetter__'', ''__defineSetter__'', ''__lookupGetter__'', ''__lookupSetter__'']"

datatype property = Own int | Inherited | Absent

text \<open>\<open>QUALITY_TO_SCORE[label]\<close>.\<close>

definition QUALITY_TO_SCORE :: "string \<Rightarrow> property" where
  "QUALITY_TO_SCORE label =
     (if label = ''Strong'' then Own 3
      else if label = ''Medium'' then Own 2
      else if label = ''Weak'' then Own 1
      else if label \<in> set Object_prototype_keys then Inherited
      else Absent)"

subsection \<open>Construction\<close>

definition normalizeRoster_entry :: "roster_input \<Rightarrow> student option" where
  "normalizeRoster_entry e =
     (case e of
        RosterString s \<Rightarrow> Some \<lparr>student_id = Some s, student_name = Some s\<rparr>
      | RosterObject ob \<Rightarrow>
          Some \<lparr>student_id = js_or (r_id ob) (js_or (r_user_id ob) (js_or (r_email ob) (r_name ob))),
                student_name =
                  js_or (r_name ob) (js_or (r_display_name ob) (js_or (r_real_name ob) (r_id ob)))\<rparr>
      | RosterOther \<Rightarrow> None)"

text \<open>\<open>roster.map(...).filter(Boolean)\<close>.\<close>

definition normalizeRoster :: "roster_input list \<Rightarrow> student list" where
  "normalizeRoster r = List.map_filter normalizeRoster_entry r"

definition normalizeQuality :: "string option \<Rightarrow> string option \<Rightarrow> string" where
  "normalizeQuality q content =
     (case q of
        Some l \<Rightarrow> if l \<noteq> [] then l else classifyCheckinQuality (js_or content (Some []))
      | None \<Rightarrow> classifyCheckinQuality (js_or content (Some [])))"

definition CheckInAgent :: "raw_checkin list \<Rightarrow> roster_input list \<Rightarrow> agent" where
  "CheckInAgent cs r =
     \<lparr>checkins =
        map (\<lambda>c. \<lparr>message_id = message_id c, user_id = user_id c, user_name = user_name c,
                   timestamp = timestamp c, message_content = message_content c,
                   quality = normalizeQuality (quality c) (message_content c)\<rparr>) cs,
      roster = normalizeRoster r\<rparr>"

subsection \<open>Students\<close>

text \<open>
  A \<open>Map\<close> is a list of keys with their values in the order of insertion; \<open>set\<close> is
  called here only for a key the map does not have.
\<close>

definition map_has :: "('k \<times> 'v) list \<Rightarrow> 'k \<Rightarrow> bool" where
  "map_has m k = (k \<in> set (map fst m))"

fun uniqueUsers_loop :: "entry list \<Rightarrow> (string \<times> student) list \<Rightarrow> (string \<times> student) list" where
  "uniqueUsers_loop [] m = m"
| "uniqueUsers_loop (item # rest) m =
     uniqueUsers_loop rest
       (if \<not> map_has m (user_id item)
        then m @ [(user_id item,
                   \<lparr>student_id = Some (user_id item),
                    student_name = js_or (user_name item) (Some (user_id item))\<rparr>)]
        else m)"

definition uniqueUsersFromCheckins :: "entry list \<Rightarrow> student list" where
  "uniqueUsersFromCheckins cs = map snd (uniqueUsers_loop cs [])"

fun combine_loop ::
  "student list \<Rightarrow> (string option \<times> student) list \<Rightarrow> (string option \<times> student) list" where
  "combine_loop [] m = m"
| "combine_loop (e # rest) m =
     combine_loop rest (if \<not> map_has m (student_id e) then m @ [(student_id e, e)] else m)"

definition getAllStudents :: "agent \<Rightarrow> student list" where
  "getAllStudents a =
     (let uniqueUsers = uniqueUsersFromCheckins (checkins a)
      in map snd (combine_loop (roster a @ uniqueUsers) []))"

subsection \<open>Windows\<close>

definition getCheckinsByDateRange :: "agent \<Rightarrow> dayjs \<Rightarrow> dayjs \<Rightarrow> entry list" where
  "getCheckinsByDateRange a startDate endDate =
     filter (\<lambda>c. isSameOrAfter (timestamp c) startDate \<and> isSameOrBefore (timestamp c) endDate)
       (checkins a)"

definition getCheckinsForUser :: "agent \<Rightarrow> string option \<Rightarrow> datearg \<Rightarrow> datearg \<Rightarrow> entry list" where
  "getCheckinsForUser a userId start end =
     (let dateFiltered =
        (if is_truthy start \<and> is_truthy end
         then getCheckinsByDateRange a (as_dayjs start) (as_dayjs end)
         else checkins a)
      in filter (\<lambda>c. Some (user_id c) = userId) dateFiltered)"

text \<open>
  \<open>getUserByName\<close>: \<open>find\<close> calls \<open>user.name.toLowerCase()\<close> on the students in
  order, which is a TypeError at a student whose name is undefined.
\<close>

fun find_by_name :: "string \<Rightarrow> student list \<Rightarrow> error + student option" where
  "find_by_name normalizedName [] = Inr None"
| "find_by_name normalizedName (u # us) =
     (case student_name u of
        None \<Rightarrow> Inl TypeError
      | Some n \<Rightarrow>
          if toLowerCase n = normalizedName then Inr (Some u)
          else find_by_name normalizedName us)"

definition getUserByName :: "agent \<Rightarrow> string \<Rightarrow> error + student option" where
  "getUserByName a name' =
     (let normalizedName = toLowerCase (trim name')
      in find_by_name normalizedName (getAllStudents a))"

subsection \<open>Summaries\<close>

record daily =
  d_date :: string
  d_message :: "string option"
  d_quality :: string
  d_timestamp :: dayjs

text \<open>
  The comparator of the sort in \<open>summarizeDaily\<close> reads \<open>dayjs(timestamp).valueOf()\<close>;
  the entries of a window between two dayjs objects have valid timestamps.
\<close>

definition valueOf :: "dayjs \<Rightarrow> int" where
  "valueOf d = (case d of Valid t \<Rightarrow> t | Invalid \<Rightarrow> 0)"

definition summarizeDaily :: "agent \<Rightarrow> string option \<Rightarrow> dayjs \<Rightarrow> daily option" where
  "summarizeDaily a userId date =
     (let dayStart = startOf_day date;
          dayEnd = endOf_day date;
          entries = getCheckinsForUser a userId (dayjs_object dayStart) (dayjs_object dayEnd)
      in case sort_key (\<lambda>c. valueOf (timestamp c)) entries of
           [] \<Rightarrow> None
         | entry # _ \<Rightarrow>
             Some \<lparr>d_date = ISO_DATE dayStart, d_message = message_content entry,
                   d_quality = quality entry, d_timestamp = timestamp entry\<rparr>)"

text \<open>
  The \<open>reduce\<close> of \<open>summarizeRange\<close>. The accumulator is a number as long as every
  label read so far has a numeric weight or none; an inherited property turns the sum
  into a string, and it stays one (\<open>None\<close>).
\<close>

fun score_reduce :: "entry list \<Rightarrow> int option \<Rightarrow> int option" where
  "score_reduce [] acc = acc"
| "score_reduce (item # rest) acc =
     score_reduce rest
       (case acc of
          None \<Rightarrow> None
        | Some s \<Rightarrow>
            (case QUALITY_TO_SCORE (quality item) of
               Own n \<Rightarrow> Some (s + n)
             | Inherited \<Rightarrow> None
             | Absent \<Rightarrow> Some (s + 0)))"

text \<open>
  A JavaScript number is an IEEE 754 double. A finite double is a rational, and the
  result of an arithmetic operation is the exact result rounded to the nearest double,
  to the one with the even significand of two that are equally near. The exponent of
  a positive rational is the largest power of two below or at it, and not less than
  that of the smallest normal double; a double has 53 significant bits. The numbers
  that the agent computes are far below the largest double.
\<close>

definition round_half_even :: "rat \<Rightarrow> int" where
  "round_half_even m =
     (let f = \<lfloor>m\<rfloor>; r = m - of_int f
      in if r < 1 / 2 then f else if 1 / 2 < r then f + 1 else if even f then f else f + 1)"

definition binary_exponent :: "rat \<Rightarrow> int" where
  "binary_exponent x =
     (case quotient_of x of
        (a, b) \<Rightarrow> let c = bitlen a - bitlen b in max (- 1022) (if 2 powi c \<le> x then c else c - 1))"

definition round_positive :: "rat \<Rightarrow> rat" where
  "round_positive x =
     (let u = 2 powi (binary_exponent x - 52) in of_int (round_half_even (x / u)) * u)"

definition to_double :: "rat \<Rightarrow> rat" where
  "to_double x = (if x = 0 then 0 else if x < 0 then - round_positive (- x) else round_positive x)"

text \<open>
  \<open>Number(x.toFixed(2))\<close> for a double \<open>x\<close>: \<open>toFixed\<close> takes the exact value of the
  double to the nearest multiple of a hundredth, to the larger one in magnitude of two
  that are equally near, and \<open>Number\<close> reads the digits back; the result stands here
  for the double that is written with these two decimals.
\<close>

definition toFixed2 :: "rat \<Rightarrow> rat" where
  "toFixed2 x =
     (if x < 0 then - (of_int \<lfloor>- x * 100 + 1 / 2\<rfloor> / 100) else of_int \<lfloor>x * 100 + 1 / 2\<rfloor> / 100)"

text \<open>
  A summary. \<open>None\<close> stands for a number that is not finite (NaN, or the quotient by
  zero). The sum of the weights is an integer far below \<open>2 ^ 53\<close>, so the additions are
  exact; the quotient is rounded.
\<close>

record summary =
  s_start :: string
  s_end :: string
  total_checkins :: nat
  average_quality_score :: "rat option"
  s_quality :: string
  s_entries :: "entry list"

definition summarizeRange :: "agent \<Rightarrow> string option \<Rightarrow> datearg \<Rightarrow> datearg \<Rightarrow> summary option" where
  "summarizeRange a userId start end =
     (let entries = getCheckinsForUser a userId start end
      in if entries = [] then None
         else
           let score = score_reduce entries (Some 0);
               averageScore =
                 map_option (\<lambda>s. to_double (of_int s / of_nat (length entries))) score;
               quality = (case averageScore of
                            None \<Rightarrow> ''Weak''
                          | Some av \<Rightarrow>
                              if av \<ge> 5 / 2 then ''Strong''
                              else if av \<ge> 7 / 4 then ''Medium'' else ''Weak'')
           in Some \<lparr>s_start = ISO_DATE (as_dayjs start), s_end = ISO_DATE (as_dayjs end),
                    total_checkins = length entries,
                    average_quality_score = map_option toFixed2 averageScore,
                    s_quality = quality, s_entries = entries\<rparr>)"

record blocker =
  b_user_id :: string
  b_user_name :: "string option"
  b_timestamp :: dayjs
  b_message :: string

definition blockerKeywords :: "string list" where
  "blockerKeywords =
     [''blocker'', ''blocked'', ''stuck'', ''issue'', ''problem'', ''waiting'', ''delay'']"

text \<open>
  \<open>extractBlockers\<close>: \<open>entry.message_content.toLowerCase()\<close> is a TypeError at an
  entry without text, and the \<open>forEach\<close> stops there.
\<close>

fun extractBlockers :: "entry list \<Rightarrow> error + blocker list" where
  "extractBlockers [] = Inr []"
| "extractBlockers (entry # rest) =
     (case message_content entry of
        None \<Rightarrow> Inl TypeError
      | Some content \<Rightarrow>
          (case extractBlockers rest of
             Inl e \<Rightarrow> Inl e
           | Inr blockers \<Rightarrow>
               if some_keyword (toLowerCase content) blockerKeywords
               then Inr (\<lparr>b_user_id = user_id entry, b_user_name = user_name entry,
                          b_timestamp = timestamp entry, b_message = content\<rparr> # blockers)
               else Inr blockers))"

record week_summary = summary +
  blockers :: "blocker list"

definition summarizeWeek :: "agent \<Rightarrow> string option \<Rightarrow> dayjs \<Rightarrow> error + week_summary option" where
  "summarizeWeek a userId weekStart =
     (let start = startOf_day weekStart;
          end = endOf_day (add_day start 6)
      in case summarizeRange a userId (dayjs_object start) (dayjs_object end) of
           None \<Rightarrow> Inr None
         | Some summary \<Rightarrow>
             (case extractBlockers (s_entries summary) of
                Inl e \<Rightarrow> Inl e
              | Inr bs \<Rightarrow> Inr (Some (summary.extend summary (week_summary.fields bs)))))"

record consistency =
  days_checked_in :: nat
  period_length :: "int option"
  percentage :: "rat option"

definition calculateConsistency :: "agent \<Rightarrow> string option \<Rightarrow> datearg \<Rightarrow> datearg \<Rightarrow> consistency" where
  "calculateConsistency a userId start end =
     (let entries = getCheckinsForUser a userId start end
      in if entries = []
         then \<lparr>days_checked_in = 0,
               period_length = map_option (\<lambda>n. n + 1) (diff_day (as_dayjs end) (as_dayjs start)),
               percentage = Some 0\<rparr>
         else
           let uniqueDays = remdups (map (\<lambda>e. ISO_DATE (timestamp e)) entries);
               totalDays = map_option (\<lambda>n. n + 1) (diff_day (as_dayjs end) (as_dayjs start))
           in \<lparr>days_checked_in = length uniqueDays,
                period_length = totalDays,
                percentage =
                  (case totalDays of
                     None \<Rightarrow> None
                   | Some n \<Rightarrow>
                       if n = 0 then None
                       else Some (toFixed2
                              (to_double (to_double (of_nat (length uniqueDays) / of_int n) * 100))))\<rparr>)"

record month_summary = week_summary +
  consistency :: consistency

definition summarizeMonth :: "agent \<Rightarrow> string option \<Rightarrow> dayjs \<Rightarrow> error + month_summary option" where
  "summarizeMonth a userId month =
     (let start = startOf_month month;
          end = endOf_month month
      in case summarizeRange a userId (dayjs_object start) (dayjs_object end) of
           None \<Rightarrow> Inr None
         | Some summary \<Rightarrow>
             (let consistency = calculateConsistency a userId (dayjs_object start) (dayjs_object end)
              in case extractBlockers (s_entries summary) of
                   Inl e \<Rightarrow> Inl e
                 | Inr bs \<Rightarrow>
                     Inr (Some (week_summary.extend (summary.extend summary (week_summary.fields bs))
                                  (month_summary.fields consistency)))))"

definition findMissingCheckins :: "agent \<Rightarrow> dayjs \<Rightarrow> dayjs \<Rightarrow> student list" where
  "findMissingCheckins a start end =
     (let students = getAllStudents a;
          checkins = getCheckinsByDateRange a start end;
          hasCheckedIn = set (map user_id checkins)
      in filter (\<lambda>student. \<not> (case student_id student of
                                   None \<Rightarrow> False
                                 | Some i \<Rightarrow> i \<in> hasCheckedIn)) students)"

subsection \<open>The window average as the specification words it\<close>

text \<open>
  The weights of the three labels of the data model, the mean of the weights of a
  non-empty list of entries, and the label of a mean.
\<close>

definition spec_weight :: "string \<Rightarrow> int" where
  "spec_weight l = (if l = ''Strong'' then 3 else if l = ''Medium'' then 2 else 1)"

definition spec_mean :: "entry list \<Rightarrow> rat" where
  "spec_mean es = of_int (sum_list (map (\<lambda>e. spec_weight (quality e)) es)) / of_nat (length es)"

definition spec_window_label :: "rat \<Rightarrow> string" where
  "spec_window_label m = (if m \<ge> 5 / 2 then ''Strong'' else if m \<ge> 7 / 4 then ''Medium'' else ''Weak'')"

subsection \<open>Questions in free text\<close>

text \<open>
  The regular expressions of the agent, each as the function that computes its first
  match. A literal is compared without regard to the case of letters (flag \<open>i\<close>), and
  a match is looked for at every position from the left.
\<close>

definition starts_with_ci :: "string \<Rightarrow> string \<Rightarrow> bool" where
  "starts_with_ci s lit = starts_with (toLowerCase (take (length lit) s)) lit"

fun first_match :: "(string \<Rightarrow> 'a option) \<Rightarrow> string \<Rightarrow> 'a option" where
  "first_match m [] = m []"
| "first_match m (c # cs) =
     (case m (c # cs) of Some r \<Rightarrow> Some r | None \<Rightarrow> first_match m cs)"

text \<open>\<open>/past (\d+) day/\<close> at the start of a string: the digits.\<close>

definition past_days_at :: "string \<Rightarrow> string option" where
  "past_days_at s =
     (if starts_with s ''past ''
      then let rest = drop 5 s; ds = takeWhile is_digit rest
           in if ds \<noteq> [] \<and> starts_with (dropWhile is_digit rest) '' day'' then Some ds else None
      else None)"

text \<open>
  The lazy group \<open>([^?]+?)\<close> followed by \<open>'s check-in\<close>: the shortest run, of at
  least one code unit and without a question mark, that the literal follows.
\<close>

fun name_until :: "string \<Rightarrow> string \<Rightarrow> string option" where
  "name_until acc [] = None"
| "name_until acc (c # cs) =
     (if c = CHR ''?'' then None
      else if starts_with_ci cs [CHR 0x27, CHR ''s'', CHR '' '', CHR ''c'', CHR ''h'', CHR ''e'',
                                 CHR ''c'', CHR ''k'', CHR ''-'', CHR ''i'', CHR ''n'']
      then Some (rev (c # acc))
      else name_until (c # acc) cs)"

text \<open>\<open>/quality of ([^?]+?)'s check-in/i\<close> at the start of a string: the name.\<close>

definition quality_of_at :: "string \<Rightarrow> string option" where
  "quality_of_at s =
     (if starts_with_ci s ''quality of '' then name_until [] (drop 11 s) else None)"

text \<open>
  \<open>/on ([^?]+?)(\?|$)/i\<close> at the start of a string: the group runs to the first
  question mark or to the end, and is not empty.
\<close>

definition on_date_at :: "string \<Rightarrow> string option" where
  "on_date_at s =
     (if starts_with_ci s ''on ''
      then let g = takeWhile (\<lambda>c. c \<noteq> CHR ''?'') (drop 3 s) in if g \<noteq> [] then Some g else None
      else None)"

text \<open>
  \<open>/between ([^ ]+) and ([^?]+)/i\<close> at the start of a string: the first group runs
  to the next space, the second to the first question mark or to the end.
\<close>

definition between_at :: "string \<Rightarrow> (string \<times> string) option" where
  "between_at s =
     (if starts_with_ci s ''between ''
      then let rest = drop 8 s;
               g1 = takeWhile (\<lambda>c. c \<noteq> CHR '' '') rest;
               after = dropWhile (\<lambda>c. c \<noteq> CHR '' '') rest;
               g2 = takeWhile (\<lambda>c. c \<noteq> CHR ''?'') (drop 5 after)
           in if g1 \<noteq> [] \<and> starts_with_ci after '' and '' \<and> g2 \<noteq> [] then Some (g1, g2)
              else None
      else None)"

definition weekdays :: "string list" where
  "weekdays = [''monday'', ''tuesday'', ''wednesday'', ''thursday'', ''friday'', ''saturday'',
     ''sunday'']"

fun indexOf :: "string list \<Rightarrow> string \<Rightarrow> nat \<Rightarrow> int" where
  "indexOf [] x i = - 1"
| "indexOf (y # ys) x i = (if y = x then int i else indexOf ys x (i + 1))"

text \<open>\<open>s.replace(/\.$/, '')\<close>.\<close>

definition drop_final_dot :: "string \<Rightarrow> string" where
  "drop_final_dot s = (if s \<noteq> [] \<and> last s = CHR ''.'' then butlast s else s)"

text \<open>
  The functions that read the clock take the current instant \<open>now\<close> as an
  argument. \<open>parseDateToken\<close> returns \<open>None\<close> for \<open>null\<close>.
\<close>

definition parseDateToken :: "int \<Rightarrow> string \<Rightarrow> dayjs option \<Rightarrow> dayjs option" where
  "parseDateToken now token referenceStart =
     (let trimmed = drop_final_dot (trim token);
          lower = toLowerCase trimmed
      in if dayjs_strict trimmed \<noteq> Invalid then Some (dayjs_strict trimmed)
         else
           let weekdayIndex = indexOf weekdays lower 0
           in if weekdayIndex \<noteq> - 1
              then let base = (case referenceStart of
                                 Some r \<Rightarrow> r
                               | None \<Rightarrow> startOf_isoWeek (Valid now))
                   in Some (add_day base weekdayIndex)
              else if lower = ''yesterday'' then Some (add_day (Valid now) (- 1))
              else if lower = ''today'' then Some (Valid now)
              else if lower = ''tomorrow'' then Some (add_day (Valid now) 1)
              else None)"

record ranking =
  r_student :: "string option"
  r_average_quality_score :: rat
  r_quality :: string
  r_checkins :: nat

record listing =
  l_date :: string
  l_message :: "string option"
  l_quality :: string

text \<open>The shapes of the object that \<open>answerQuestion\<close> returns.\<close>

datatype response =
    Answer string string
  | QualityAnswer string string daily
  | Yesterday string string "string option list" "string option list" "string option"
  | MissingRecent string string string "string option list" "string option"
  | Progress string string string "ranking list"
  | DateRangeListing string string string "(string \<times> listing list) list"
  | BlockersThisWeek string string string "blocker list"

text \<open>\<open>Map.prototype.set\<close>: a new key goes to the end, a known key keeps its place.\<close>

fun map_set :: "('k \<times> 'v) list \<Rightarrow> 'k \<Rightarrow> 'v \<Rightarrow> ('k \<times> 'v) list" where
  "map_set [] k v = [(k, v)]"
| "map_set ((k', v') # m) k v = (if k' = k then (k, v) # m else (k', v') # map_set m k v)"

definition roster_note :: string where
  "roster_note = ''Provide a roster list to identify missing check-ins.''"

definition answerYesterday :: "agent \<Rightarrow> int \<Rightarrow> response" where
  "answerYesterday a now =
     (let today = Valid now;
          day = ISO_DATE (add_day today (- 1));
          start = startOf_day (dayjs_of_string day);
          end = endOf_day (dayjs_of_string day);
          entries = getCheckinsByDateRange a start end;
          checkinsByUser = fold (\<lambda>e m. map_set m (user_id e) (user_name e)) entries [];
          missing = findMissingCheckins a start end;
          rosterProvided = (roster a \<noteq> [])
      in Yesterday ''Who checked in yesterday and who did not?'' day
           (map snd checkinsByUser)
           (if rosterProvided then map student_name missing else [])
           (if rosterProvided then None else Some roster_note))"

definition answerMissingRecent :: "agent \<Rightarrow> int \<Rightarrow> string \<Rightarrow> response" where
  "answerMissingRecent a now lowerQuestion =
     (let days = (case first_match past_days_at lowerQuestion of
                    Some ds \<Rightarrow> int (Number_of ds)
                  | None \<Rightarrow> 3);
          end = endOf_day (Valid now);
          start = startOf_day (add_day end (- (days - 1)));
          missing = findMissingCheckins a start end;
          rosterProvided = (roster a \<noteq> [])
      in MissingRecent ''Students missing check-ins'' (ISO_DATE start) (ISO_DATE end)
           (if rosterProvided then map student_name missing else [])
           (if rosterProvided then None else Some roster_note))"

definition answerQualityQuestion :: "agent \<Rightarrow> int \<Rightarrow> string \<Rightarrow> error + response" where
  "answerQualityQuestion a now question =
     (let nameMatch = first_match quality_of_at question;
          dateMatch = first_match on_date_at question
      in case nameMatch of
           None \<Rightarrow>
             Inr (Answer question
               ''Please specify the student name whose check-in quality you want to review.'')
         | Some n \<Rightarrow>
             let studentName = trim n
             in case getUserByName a studentName of
                  Inl e \<Rightarrow> Inl e
                | Inr None \<Rightarrow>
                    Inr (Answer question
                      (''I could not find a student named '' @ studentName @ ''.''))
                | Inr (Some user) \<Rightarrow>
                    (case (case dateMatch of
                             Some tok \<Rightarrow> parseDateToken now tok None
                           | None \<Rightarrow> Some (dayjs_of_string (ISO_DATE (Valid now)))) of
                       None \<Rightarrow>
                         Inr (Answer question ''I was unable to interpret the requested date.'')
                     | Some date \<Rightarrow>
                         (case summarizeDaily a (student_id user) date of
                            None \<Rightarrow>
                              Inr (Answer question
                                (studentName @ '' did not check in on '' @ ISO_DATE date @ ''.''))
                          | Some daily \<Rightarrow>
                              Inr (QualityAnswer question
                                (studentName @ [CHR 0x27] @ ''s check-in on '' @ d_date daily
                                   @ '' was classified as '' @ d_quality daily @ ''.'')
                                daily))))"

definition answerProgressThisWeek :: "agent \<Rightarrow> int \<Rightarrow> response" where
  "answerProgressThisWeek a now =
     (let start = startOf_isoWeek (Valid now);
          end = endOf_day (add_day start 6);
          students = getAllStudents a;
          rankings =
            filter (\<lambda>item. r_checkins item > 0)
              (map (\<lambda>student.
                      case summarizeRange a (student_id student) (dayjs_object start)
                             (dayjs_object end) of
                        None \<Rightarrow>
                          \<lparr>r_student = student_name student, r_average_quality_score = 0,
                           r_quality = ''No Data'', r_checkins = 0\<rparr>
                      | Some summary \<Rightarrow>
                          \<lparr>r_student = student_name student,
                           r_average_quality_score =
                             (case average_quality_score summary of None \<Rightarrow> 0 | Some x \<Rightarrow> x),
                           r_quality = s_quality summary,
                           r_checkins = total_checkins summary\<rparr>) students);
          sorted = sort_key (\<lambda>item. - r_average_quality_score item) rankings
      in Progress ''Which students made the most substantial progress this week?''
           (ISO_DATE start) (ISO_DATE end) (take 5 sorted))"

text \<open>
  The object \<open>grouped\<close> of \<open>answerDateRangeListing\<close>, keyed by the user names.
  An undefined name is the key \<open>undefined\<close>. For a name that the empty object inherits,
  \<open>grouped[name]\<close> is truthy and has no \<open>push\<close>: a TypeError.
\<close>

fun group_push :: "(string \<times> listing list) list \<Rightarrow> string \<Rightarrow> listing \<Rightarrow> (string \<times> listing list) list" where
  "group_push [] k v = [(k, [v])]"
| "group_push ((k', vs) # g) k v =
     (if k' = k then (k', vs @ [v]) # g else (k', vs) # group_push g k v)"

fun group_entries ::
  "entry list \<Rightarrow> (string \<times> listing list) list \<Rightarrow> error + (string \<times> listing list) list" where
  "group_entries [] grouped = Inr grouped"
| "group_entries (e # rest) grouped =
     (let key = (case user_name e of None \<Rightarrow> ''undefined'' | Some n \<Rightarrow> n)
      in if \<not> map_has grouped key \<and> key \<in> set Object_prototype_keys then Inl TypeError
         else group_entries rest
                (group_push grouped key
                   \<lparr>l_date = ISO_DATE (timestamp e), l_message = message_content e,
                    l_quality = quality e\<rparr>))"

definition answerDateRangeListing :: "agent \<Rightarrow> int \<Rightarrow> string \<Rightarrow> error + response" where
  "answerDateRangeListing a now question =
     (case first_match between_at question of
        None \<Rightarrow>
          Inr (Answer question
            ''Please specify the start and end dates for the query (e.g., between Monday and Wednesday).'')
      | Some (startToken, endToken) \<Rightarrow>
          let start = parseDateToken now startToken None;
              end = parseDateToken now endToken start
          in case (start, end) of
               (Some s, Some e) \<Rightarrow>
                 (let entries = getCheckinsByDateRange a (startOf_day s) (endOf_day e)
                  in case group_entries entries [] of
                       Inl err \<Rightarrow> Inl err
                     | Inr grouped \<Rightarrow>
                         Inr (DateRangeListing question (ISO_DATE s) (ISO_DATE e) grouped))
             | _ \<Rightarrow> Inr (Answer question ''I was unable to interpret the provided date range.''))"

definition answerBlockersThisWeek :: "agent \<Rightarrow> int \<Rightarrow> error + response" where
  "answerBlockersThisWeek a now =
     (let start = startOf_isoWeek (Valid now);
          end = endOf_day (add_day start 6);
          entries = getCheckinsByDateRange a start end
      in case extractBlockers entries of
           Inl e \<Rightarrow> Inl e
         | Inr bs \<Rightarrow>
             Inr (BlockersThisWeek ''What were the key blockers mentioned this week?''
                    (ISO_DATE start) (ISO_DATE end) bs))"

definition answerQuestion :: "agent \<Rightarrow> int \<Rightarrow> string \<Rightarrow> error + response" where
  "answerQuestion a now question =
     (let lower = toLowerCase question
      in if str_includes lower ''who checked in yesterday'' then Inr (answerYesterday a now)
         else if str_includes lower [CHR ''w'', CHR ''h'', CHR ''o'', CHR '' '', CHR ''d'', CHR ''i'',
                                     CHR ''d'', CHR ''n'', CHR 0x27, CHR ''t'']
                 \<or> str_includes lower ''who did not''
         then Inr (answerMissingRecent a now lower)
         else if str_includes lower ''quality of'' then answerQualityQuestion a now question
         else if str_includes lower ''substantial progress'' then Inr (answerProgressThisWeek a now)
         else if str_includes lower ''between'' \<and> str_includes lower ''checked in''
         then answerDateRangeListing a now question
         else if str_includes lower ''key blockers'' \<or> str_includes lower ''blockers''
         then answerBlockersThisWeek a now
         else Inr (Answer question
                ''I'm not sure how to answer that yet, but I can help with check-in summaries, quality, blockers, and attendance.''))"

subsection \<open>Dashboards\<close>

text \<open>
  The timeframe of a report. A date field is \<open>None\<close> when its value is missing or
  falsy, and otherwise what \<open>dayjs(value)\<close> reads from it.
\<close>

record timeframe =
  tf_type :: "string option"
  tf_date :: "dayjs option"
  tf_start :: "dayjs option"
  tf_month :: "dayjs option"

datatype dashboard =
    DailyDashboard "string option" string "daily option"
  | WeeklyDashboard "string option" string string "week_summary option"
  | MonthlyDashboard "string option" string "month_summary option"

text \<open>\<open>a || b\<close> on date fields.\<close>

definition or_else :: "'a option \<Rightarrow> 'a option \<Rightarrow> 'a option" where
  "or_else a b = (case a of Some x \<Rightarrow> Some x | None \<Rightarrow> b)"

definition generateDashboard ::
  "agent \<Rightarrow> int \<Rightarrow> string option \<Rightarrow> string option \<Rightarrow> timeframe option \<Rightarrow> error + dashboard" where
  "generateDashboard a now userId userName timeframe =
     (if \<not> truthy userId then Inl (Error ''userId is required to generate a dashboard.'')
      else case timeframe of
        None \<Rightarrow> Inl (Error ''A timeframe with a type is required (daily, weekly, monthly).'')
      | Some tf \<Rightarrow>
          (case tf_type tf of
             None \<Rightarrow> Inl (Error ''A timeframe with a type is required (daily, weekly, monthly).'')
           | Some ty \<Rightarrow>
               if ty = [] then Inl (Error ''A timeframe with a type is required (daily, weekly, monthly).'')
               else
                 let type = toLowerCase ty
                 in if type = ''daily''
                    then (case or_else (tf_date tf) (tf_start tf) of
                            None \<Rightarrow> Inl (Error ''Daily dashboards require a date value.'')
                          | Some date \<Rightarrow>
                              Inr (DailyDashboard userName (ISO_DATE date)
                                     (summarizeDaily a userId date)))
                    else if type = ''weekly''
                    then (let start = (case or_else (tf_start tf) (tf_date tf) of
                                         Some startValue \<Rightarrow> startOf_isoWeek startValue
                                       | None \<Rightarrow> startOf_isoWeek (Valid now))
                          in case summarizeWeek a userId start of
                               Inl e \<Rightarrow> Inl e
                             | Inr summary \<Rightarrow>
                                 Inr (WeeklyDashboard userName (ISO_DATE start)
                                        (ISO_DATE (add_day start 6)) summary))
                    else if type = ''monthly''
                    then (let monthValue =
                                (case or_else (tf_month tf) (or_else (tf_start tf) (tf_date tf)) of
                                   Some v \<Rightarrow> v
                                 | None \<Rightarrow> dayjs_of_string (ISO_DATE (Valid now)))
                          in case summarizeMonth a userId monthValue of
                               Inl e \<Rightarrow> Inl e
                             | Inr summary \<Rightarrow>
                                 Inr (MonthlyDashboard userName (MMMM_YYYY monthValue) summary))
                    else Inl (Error (''Unsupported timeframe type: '' @ ty))))"

subsection \<open>The requests that a report rejects\<close>

text \<open>
  The requests for which the specification has \<open>generateDashboard\<close> fail: no user id,
  no timeframe type, a daily type with neither date nor start, or a type that is none
  of daily, weekly and monthly. The first predicate compares the type as it is given;
  the second compares it in lower case, as the source does.
\<close>

definition claimed_request_invalid :: "string option \<Rightarrow> timeframe option \<Rightarrow> bool" where
  "claimed_request_invalid userId timeframe =
     (if \<not> truthy userId then True
      else case timeframe of
        None \<Rightarrow> True
      | Some tf \<Rightarrow>
          (case tf_type tf of
             None \<Rightarrow> True
           | Some ty \<Rightarrow>
               ty = [] \<or> (ty = ''daily'' \<and> tf_date tf = None \<and> tf_start tf = None)
                 \<or> ty \<notin> {''daily'', ''weekly'', ''monthly''}))"

definition dashboard_request_invalid :: "string option \<Rightarrow> timeframe option \<Rightarrow> bool" where
  "dashboard_request_invalid userId timeframe =
     (if \<not> truthy userId then True
      else case timeframe of
        None \<Rightarrow> True
      | Some tf \<Rightarrow>
          (case tf_type tf of
             None \<Rightarrow> True
           | Some ty \<Rightarrow>
               ty = []
                 \<or> (toLowerCase ty = ''daily'' \<and> tf_date tf = None \<and> tf_start tf = None)
                 \<or> toLowerCase ty \<notin> {''daily'', ''weekly'', ''monthly''}))"

section \<open>Example data\<close>

text \<open>
  A roster of two students and three check-ins of October 2024: Alice on the first at
  10:00 and on the second at 09:00, with a display name that differs from the roster's,
  and Carol, who is not on the roster, on the first at midnight.
\<close>

definition alice_oct1 :: raw_checkin where
  "alice_oct1 =
     \<lparr>message_id = ''m1'', user_id = ''alice'', user_name = Some ''ali'',
      timestamp = Valid 1727776800000,
      message_content = Some ''Finished the login feature, 3 PRs merged.'',
      quality = Some ''Strong''\<rparr>"

definition alice_oct2 :: raw_checkin where
  "alice_oct2 =
     \<lparr>message_id = ''m2'', user_id = ''alice'', user_name = Some ''ali'',
      timestamp = Valid 1727859600000,
      message_content = Some ''Stuck on the deploy, waiting for review.'',
      quality = None\<rparr>"

definition carol_oct1 :: raw_checkin where
  "carol_oct1 =
     \<lparr>message_id = ''m3'', user_id = ''carol'', user_name = None,
      timestamp = Valid 1727740800000,
      message_content = Some ''ok'',
      quality = Some ''Excellent''\<rparr>"

definition example_roster :: "roster_input list" where
  "example_roster =
     [RosterObject \<lparr>r_id = Some ''alice'', r_user_id = None, r_email = None,
                    r_name = Some ''Alice A.'', r_display_name = None, r_real_name = None\<rparr>,
      RosterString ''bob'']"

definition example_agent :: agent where
  "example_agent = CheckInAgent [alice_oct1, alice_oct2, carol_oct1] example_roster"

text \<open>
  A check-in that the controller accepts although it has no text, and a roster entry
  that gives only an e-mail address.
\<close>

definition textless_agent :: agent where
  "textless_agent = CheckInAgent [alice_oct1\<lparr>message_content := None, quality := None\<rparr>] []"

definition email_only_agent :: agent where
  "email_only_agent =
     CheckInAgent []
       [RosterObject \<lparr>r_id = None, r_user_id = None, r_email = Some ''jane@example.org'',
                      r_name = None, r_display_name = None, r_real_name = None\<rparr>]"

text \<open>A check-in of a user whose display name is \<open>constructor\<close>.\<close>

definition constructor_agent :: agent where
  "constructor_agent = CheckInAgent [alice_oct1\<lparr>user_name := Some ''constructor''\<rparr>] []"

text \<open>
  Fifty-one check-ins of one user on one day with pre-set labels, 38 Medium and 13 Weak,
  and forty, 39 Weak and one Medium.
\<close>

definition labelled_checkin :: "string \<Rightarrow> raw_checkin" where
  "labelled_checkin l =
     \<lparr>message_id = ''m'', user_id = ''dana'', user_name = Some ''Dana'',
      timestamp = Valid 1727949600000, message_content = Some ''ok'', quality = Some l\<rparr>"

definition fifty_one_agent :: agent where
  "fifty_one_agent =
     CheckInAgent (replicate 38 (labelled_checkin ''Medium'') @ replicate 13 (labelled_checkin ''Weak'')) []"

definition forty_agent :: agent where
  "forty_agent =
     CheckInAgent (replicate 39 (labelled_checkin ''Weak'') @ [labelled_checkin ''Medium'']) []"

text \<open>Three bullet lines, the first at the start of the text.\<close>

definition three_bullets :: string where
  "three_bullets = ''- done'' @ [CHR 0x0A] @ ''- b'' @ [CHR 0x0A] @ ''- c''"

section \<open>Properties of the classifier\<close>

lemma some_keyword_list_ex: "some_keyword lower ks = list_ex (str_includes lower) ks"
  by (induction ks) simp_all

lemma scoreCompleteness_loop_filter:
  "scoreCompleteness_loop lower gs n = n + length (filter (some_keyword lower) gs)"
  by (induction gs arbitrary: n) simp_all

lemma scoreCompleteness_spec: "scoreCompleteness t = spec_categories_present t"
proof -
  have "some_keyword lower = list_ex (str_includes lower)" for lower
    using some_keyword_list_ex by blast
  then show ?thesis
    by (simp add: scoreCompleteness_def spec_categories_present_def scoreCompleteness_loop_filter)
qed

lemma is_digit_is_word: "is_digit c \<Longrightarrow> is_word c"
  by (auto simp: is_digit_def is_word_def Let_def)

lemma number_matches_inside_word:
  "number_matches True s = number_matches False (dropWhile is_word s)"
proof (induction s)
  case Nil
  then show ?case by simp
next
  case (Cons c cs)
  show ?case
  proof (cases "is_word c")
    case True
    then show ?thesis using Cons by simp
  next
    case False
    then have "\<not> is_digit c" using is_digit_is_word by blast
    then show ?thesis using False by simp
  qed
qed

lemma dropWhile_word_digit:
  "dropWhile is_word (dropWhile is_digit cs) = dropWhile is_word cs"
  by (induction cs) (auto simp: is_digit_is_word)

lemma digit_run_is_token:
  "(case dropWhile is_digit cs of [] \<Rightarrow> True | d # _ \<Rightarrow> \<not> is_word d)
     = list_all is_digit (takeWhile is_word cs)"
  by (induction cs) (auto simp: is_digit_is_word)

lemma number_matches_tokens:
  "length (number_matches False s) = spec_digit_tokens s"
  unfolding spec_digit_tokens_def
proof (induction s rule: word_tokens.induct)
  case 1
  then show ?case by simp
next
  case (2 c cs)
  show ?case
  proof (cases "is_word c")
    case False
    then have "\<not> is_digit c" using is_digit_is_word by blast
    then show ?thesis using False 2 by simp
  next
    case True
    have rest: "length (number_matches True cs)
        = length (filter (list_all is_digit) (word_tokens (dropWhile is_word cs)))"
      using 2(1) [OF True] number_matches_inside_word [of cs] by simp
    have rest': "length (number_matches True (dropWhile is_digit cs))
        = length (filter (list_all is_digit) (word_tokens (dropWhile is_word cs)))"
      using 2(1) [OF True] number_matches_inside_word [of "dropWhile is_digit cs"]
      by (simp add: dropWhile_word_digit)
    show ?thesis
      using True rest rest' digit_run_is_token [of cs] by simp
  qed
qed

lemma bullet_after_minus:
  "spec_bullet_indicators (CHR ''-'' # cs) = spec_bullet_indicators cs"
  by (cases cs) (simp_all add: spec_bullet_indicators_def is_line_break_def)

lemma bullet_cons2:
  "spec_bullet_indicators (c # d # cs) =
     (if is_line_break c \<and> d = CHR ''-'' then 1 else 0) + (if c = CHR ''*'' then 1 else 0)
       + spec_bullet_indicators (d # cs)"
  by (simp add: spec_bullet_indicators_def)

lemma bulletIndicators_spec: "bulletIndicators s = spec_bullet_indicators s"
proof (induction s rule: bulletIndicators.induct)
  case 1
  then show ?case by (simp add: spec_bullet_indicators_def)
next
  case (2 c)
  then show ?case by (simp add: spec_bullet_indicators_def)
next
  case (3 c d cs)
  show ?case
  proof (cases "(c = CHR 0x0A \<or> c = CHR 0x0D) \<and> d = CHR ''-''")
    case True
    then have "c \<noteq> CHR ''*''" by auto
    then show ?thesis
      using True 3(1) [OF True] bullet_after_minus [of cs]
      by (simp add: bullet_cons2 is_line_break_def)
  next
    case False
    then show ?thesis
      using 3(2) 3(3) by (auto simp: bullet_cons2 is_line_break_def)
  qed
qed

lemma word_starts_simps:
  "word_starts p [] = 0"
  "word_starts p (c # cs) = (if is_space p \<and> \<not> is_space c then 1 else 0) + word_starts c cs"
  by (simp_all add: word_starts_def)

lemma word_starts_prev: "is_space p = is_space q \<Longrightarrow> word_starts p s = word_starts q s"
  by (cases s) (simp_all add: word_starts_simps)

lemma word_starts_leading:
  "is_space p \<Longrightarrow> word_starts p (dropWhile is_space s) = word_starts p s"
proof (induction s)
  case Nil
  then show ?case by simp
next
  case (Cons c cs)
  show ?case
  proof (cases "is_space c")
    case True
    then have "word_starts c cs = word_starts p cs"
      using Cons.prems by (intro word_starts_prev) simp
    then show ?thesis using True Cons by (simp add: word_starts_simps)
  next
    case False
    then show ?thesis by simp
  qed
qed

lemma word_starts_spaces: "list_all is_space zs \<Longrightarrow> word_starts p zs = 0"
  by (induction zs arbitrary: p) (simp_all add: word_starts_simps)

lemma word_starts_trailing:
  "list_all is_space zs \<Longrightarrow> word_starts p (ys @ zs) = word_starts p ys"
  by (induction ys arbitrary: p) (simp_all add: word_starts_simps word_starts_spaces)

lemma word_starts_trim: "word_starts CHR '' '' (trim s) = word_starts CHR '' '' s"
proof -
  define t where "t = dropWhile is_space s"
  have sp: "is_space CHR '' ''" by (simp add: is_space_def)
  have "rev (takeWhile is_space (rev t) @ dropWhile is_space (rev t)) = t"
    by (simp only: takeWhile_dropWhile_id rev_rev_ident)
  then have t: "rev (dropWhile is_space (rev t)) @ rev (takeWhile is_space (rev t)) = t"
    by (simp only: rev_append)
  have "\<forall>x\<in>set (takeWhile is_space (rev t)). is_space x"
    using set_takeWhileD by fast
  then have "list_all is_space (rev (takeWhile is_space (rev t)))"
    by (simp add: list_all_iff)
  then have "word_starts CHR '' '' (rev (dropWhile is_space (rev t)) @ rev (takeWhile is_space (rev t)))
      = word_starts CHR '' '' (rev (dropWhile is_space (rev t)))"
    by (rule word_starts_trailing)
  then have "word_starts CHR '' '' (trim s) = word_starts CHR '' '' t"
    unfolding t by (simp add: trim_def t_def [symmetric])
  then show ?thesis
    using word_starts_leading [OF sp, of s] by (simp add: t_def)
qed

lemma split_ws_count:
  "is_space p = (cur = []) \<Longrightarrow>
   length (filter (\<lambda>w. w \<noteq> []) (split_ws cur s)) = (if cur = [] then 0 else 1) + word_starts p s"
proof (induction cur s arbitrary: p rule: split_ws.induct)
  case (1 cur)
  then show ?case by (simp add: word_starts_simps)
next
  case (2 cur c cs)
  show ?case
  proof (cases "is_space c")
    case True
    have "length (filter (\<lambda>w. w \<noteq> []) (split_ws [] (dropWhile is_space cs)))
        = word_starts c (dropWhile is_space cs)"
      using 2(1) [OF True, of c] True by simp
    then show ?thesis
      using True word_starts_leading [OF True, of cs] by (simp add: word_starts_simps)
  next
    case False
    have "length (filter (\<lambda>w. w \<noteq> []) (split_ws (c # cur) cs)) = 1 + word_starts c cs"
      using 2(2) [OF False, of c] False by simp
    then show ?thesis
      using False 2(3) by (auto simp: word_starts_simps)
  qed
qed

lemma countWords_spec: "countWords s = spec_word_count s"
proof -
  have sp: "is_space CHR '' ''" by (simp add: is_space_def)
  have "countWords s = word_starts CHR '' '' (trim s)"
    using split_ws_count [of "CHR '' ''" "[]" "trim s"] sp by (simp add: countWords_def)
  then show ?thesis
    by (simp add: word_starts_trim spec_word_count_def)
qed

lemma calculateQualityScore_Some:
  "calculateQualityScore (Some t) =
     15 * of_nat (scoreCompleteness t) + 10 * of_nat (scoreSpecificity t)
       + (1 / 4) * of_nat (min 120 (countWords t))"
proof (cases "t = []")
  case True
  have "scoreCompleteness [] = 0"
    by (simp add: scoreCompleteness_def toLowerCase_def KEYWORD_GROUPS_def)
  moreover have "scoreSpecificity [] = 0"
    by (simp add: scoreSpecificity_def)
  moreover have "countWords [] = 0"
    by (simp add: countWords_def trim_def)
  ultimately show ?thesis
    using True by (simp add: calculateQualityScore_def)
next
  case False
  then show ?thesis
    by (simp add: calculateQualityScore_def Let_def min.commute)
qed

lemma calculateQualityScore_spec: "calculateQualityScore text = spec_score text"
proof (cases "text")
  case None
  then show ?thesis by (simp add: calculateQualityScore_def spec_score_def)
next
  case (Some t)
  then show ?thesis
    by (simp add: calculateQualityScore_Some spec_score_def scoreCompleteness_spec
        scoreSpecificity_def spec_signals_def number_matches_tokens bulletIndicators_spec
        countWords_spec min.commute)
qed

text \<open>
  C2, amended. For every text the classifier returns the label of the score
  15 times the number of keyword groups present (one point for a group, however many of
  its keywords occur) plus 10 times the minimum of 3 and the number of digit tokens and
  bullet indicators plus a quarter of the minimum of 120 and the word count; a bullet
  indicator is a line break that a minus sign follows directly, or an asterisk anywhere
  in the text. The label is Strong from 80, Medium from 40 and Weak below; a missing or
  empty text has score 0 and label Weak.
\<close>

theorem classify_follows_spec_score:
  "calculateQualityScore text = spec_score text
   \<and> classifyCheckinQuality text = spec_label (spec_score text)
   \<and> calculateQualityScore None = 0 \<and> classifyCheckinQuality None = ''Weak''
   \<and> calculateQualityScore (Some []) = 0 \<and> classifyCheckinQuality (Some []) = ''Weak''"
proof -
  have z: "calculateQualityScore None = 0" "calculateQualityScore (Some []) = 0"
    by (simp_all add: calculateQualityScore_def)
  have l: "classifyCheckinQuality text = spec_label (spec_score text)"
    by (simp add: classifyCheckinQuality_def Let_def spec_label_def calculateQualityScore_spec
        STRONG_THRESHOLD_def MEDIUM_THRESHOLD_def)
  have w: "classifyCheckinQuality None = ''Weak''" "classifyCheckinQuality (Some []) = ''Weak''"
    by (simp_all add: classifyCheckinQuality_def Let_def z STRONG_THRESHOLD_def MEDIUM_THRESHOLD_def)
  show ?thesis using z l w calculateQualityScore_spec by simp
qed

theorem classify_follows_spec_score_witness:
  "classifyCheckinQuality (Some ''Finished the login feature, 3 PRs merged.'')
     = spec_label (spec_score (Some ''Finished the login feature, 3 PRs merged.''))
   \<and> spec_score (Some ''Finished the login feature, 3 PRs merged.'') = 107 / 4
   \<and> spec_bullet_indicators three_bullets = 2
   \<and> classifyCheckinQuality (Some three_bullets) = spec_label (spec_score (Some three_bullets))
   \<and> spec_score (Some three_bullets) = 73 / 2"
proof -
  have "spec_score (Some ''Finished the login feature, 3 PRs merged.'') = 107 / 4"
    by code_simp
  moreover have "spec_bullet_indicators three_bullets = 2"
    by code_simp
  moreover have "spec_score (Some three_bullets) = 73 / 2"
    by code_simp
  ultimately show ?thesis
    using classify_follows_spec_score [of "Some ''Finished the login feature, 3 PRs merged.''"]
      classify_follows_spec_score [of "Some three_bullets"]
    by simp
qed

theorem bullet_lines_counterexample:
  "spec_bullet_lines three_bullets = 3
   \<and> spec_score_by_lines (Some three_bullets) = 93 / 2
   \<and> spec_label (spec_score_by_lines (Some three_bullets)) = ''Medium''
   \<and> bulletIndicators three_bullets = 2
   \<and> calculateQualityScore (Some three_bullets) = 73 / 2
   \<and> classifyCheckinQuality (Some three_bullets) = ''Weak''"
  by code_simp

lemma label_of_score_mono:
  "x \<le> y \<Longrightarrow> label_rank (spec_label x) \<le> label_rank (spec_label y)"
  by (simp add: spec_label_def label_rank_def)

lemma classify_spec_label:
  "classifyCheckinQuality t = spec_label (calculateQualityScore t)"
  by (simp add: classifyCheckinQuality_def Let_def spec_label_def
      STRONG_THRESHOLD_def MEDIUM_THRESHOLD_def)

text \<open>
  C9. The label is monotone in the three components of the score: when the number of
  categories, the number of numeric and bullet signals capped at 3 and the word count
  capped at 120 of one text are each at least those of another, its score and its
  label (in the order Weak, Medium, Strong) are at least the other's.
\<close>

theorem quality_label_monotone:
  assumes "scoreCompleteness a \<le> scoreCompleteness b"
    and "scoreSpecificity a \<le> scoreSpecificity b"
    and "min 120 (countWords a) \<le> min 120 (countWords b)"
  shows "calculateQualityScore (Some a) \<le> calculateQualityScore (Some b)
    \<and> label_rank (classifyCheckinQuality (Some a)) \<le> label_rank (classifyCheckinQuality (Some b))"
proof -
  have c: "(15::rat) * of_nat (scoreCompleteness a) \<le> 15 * of_nat (scoreCompleteness b)"
    using assms(1) by simp
  have s: "(10::rat) * of_nat (scoreSpecificity a) \<le> 10 * of_nat (scoreSpecificity b)"
    using assms(2) by simp
  have w: "(1 / 4 :: rat) * of_nat (min 120 (countWords a)) \<le> (1 / 4) * of_nat (min 120 (countWords b))"
    using assms(3) by (simp del: of_nat_min)
  have le: "calculateQualityScore (Some a) \<le> calculateQualityScore (Some b)"
    unfolding calculateQualityScore_Some using c s w by linarith
  from le show ?thesis
    by (simp add: classify_spec_label label_of_score_mono)
qed

theorem quality_label_monotone_witness:
  "scoreCompleteness ''done'' \<le> scoreCompleteness ''done plan stuck 1 2 3''
   \<and> scoreSpecificity ''done'' \<le> scoreSpecificity ''done plan stuck 1 2 3''
   \<and> min 120 (countWords ''done'') \<le> min 120 (countWords ''done plan stuck 1 2 3'')
   \<and> classifyCheckinQuality (Some ''done'') = ''Weak''
   \<and> classifyCheckinQuality (Some ''done plan stuck 1 2 3'') = ''Medium''
   \<and> label_rank (classifyCheckinQuality (Some ''done''))
       \<le> label_rank (classifyCheckinQuality (Some ''done plan stuck 1 2 3''))"
proof -
  have h1: "scoreCompleteness ''done'' \<le> scoreCompleteness ''done plan stuck 1 2 3''"
    by code_simp
  have h2: "scoreSpecificity ''done'' \<le> scoreSpecificity ''done plan stuck 1 2 3''"
    by code_simp
  have h3: "min 120 (countWords ''done'') \<le> min 120 (countWords ''done plan stuck 1 2 3'')"
    by code_simp
  have l1: "classifyCheckinQuality (Some ''done'') = ''Weak''"
    by code_simp
  have l2: "classifyCheckinQuality (Some ''done plan stuck 1 2 3'') = ''Medium''"
    by code_simp
  show ?thesis
    using quality_label_monotone [OF h1 h2 h3] h1 h2 h3 l1 l2 by blast
qed
section \<open>Properties of the agent\<close>

lemma find_append:
  "find P (xs @ ys) = (case find P xs of Some x \<Rightarrow> Some x | None \<Rightarrow> find P ys)"
  by (induction xs) simp_all

lemma combine_loop_inv:
  "\<forall>p\<in>set m. fst p = student_id (snd p) \<Longrightarrow>
   \<forall>p\<in>set (combine_loop xs m). fst p = student_id (snd p)"
proof (induction xs arbitrary: m)
  case Nil
  then show ?case by simp
next
  case (Cons e rest)
  have i: "\<forall>p\<in>set (m @ [(student_id e, e)]). fst p = student_id (snd p)"
    using Cons.prems by auto
  show ?case
  proof (cases "map_has m (student_id e)")
    case True
    then show ?thesis using Cons.IH [OF Cons.prems] by simp
  next
    case False
    then show ?thesis using Cons.IH [OF i] by simp
  qed
qed


lemma combine_loop_distinct:
  "distinct (map fst m) \<Longrightarrow> distinct (map fst (combine_loop xs m))"
proof (induction xs arbitrary: m)
  case Nil
  then show ?case by simp
next
  case (Cons e rest)
  show ?case
  proof (cases "map_has m (student_id e)")
    case True
    then show ?thesis using Cons.IH [OF Cons.prems] by simp
  next
    case False
    then have "distinct (map fst (m @ [(student_id e, e)]))"
      using Cons.prems by (simp add: map_has_def)
    then show ?thesis using False Cons.IH [of "m @ [(student_id e, e)]"] by simp
  qed
qed

lemma map_fst_ids:
  "\<forall>p\<in>set m. fst p = student_id (snd p) \<Longrightarrow> map student_id (map snd m) = map fst m"
  by (induction m) simp_all

lemma find_present:
  assumes "\<forall>p\<in>set m. fst p = student_id (snd p)" and "map_has m k"
  shows "\<exists>e. find (\<lambda>s. student_id s = k) (map snd m) = Some e"
proof -
  from assms(2) obtain p where p: "p \<in> set m" "fst p = k"
    by (auto simp: map_has_def)
  then have "snd p \<in> set (map snd m)" "student_id (snd p) = k"
    using assms(1) by auto
  then have "find (\<lambda>s. student_id s = k) (map snd m) \<noteq> None"
    unfolding find_None_iff by blast
  then show ?thesis by blast
qed


lemma combine_loop_find:
  "\<forall>p\<in>set m. fst p = student_id (snd p) \<Longrightarrow>
   find (\<lambda>s. student_id s = k) (map snd (combine_loop xs m)) =
     (case find (\<lambda>s. student_id s = k) (map snd m) of
        Some e \<Rightarrow> Some e
      | None \<Rightarrow> find (\<lambda>s. student_id s = k) xs)"
proof (induction xs arbitrary: m)
  case Nil
  then show ?case by (simp split: option.splits)
next
  case (Cons e rest)
  show ?case
  proof (cases "map_has m (student_id e)")
    case True
    have ih: "find (\<lambda>s. student_id s = k) (map snd (combine_loop (e # rest) m)) =
      (case find (\<lambda>s. student_id s = k) (map snd m) of
         Some e \<Rightarrow> Some e | None \<Rightarrow> find (\<lambda>s. student_id s = k) rest)"
      using True Cons.IH [OF Cons.prems] by simp
    show ?thesis
    proof (cases "student_id e = k")
      case ek: True
      then obtain x where "find (\<lambda>s. student_id s = k) (map snd m) = Some x"
        using find_present [OF Cons.prems, of k] True by auto
      then show ?thesis using ih by (simp split: option.splits)
    next
      case False
      then show ?thesis using ih by (simp split: option.splits)
    qed
  next
    case False
    have inv: "\<forall>p\<in>set (m @ [(student_id e, e)]). fst p = student_id (snd p)"
      using Cons.prems by auto
    have ih: "find (\<lambda>s. student_id s = k) (map snd (combine_loop (e # rest) m)) =
      (case find (\<lambda>s. student_id s = k) (map snd (m @ [(student_id e, e)])) of
         Some e \<Rightarrow> Some e | None \<Rightarrow> find (\<lambda>s. student_id s = k) rest)"
      using False Cons.IH [OF inv] by simp
    show ?thesis
      unfolding ih
      by (cases "find (\<lambda>s. student_id s = k) (map snd m)") (simp_all add: find_append)
  qed
qed

lemma getAllStudents_distinct: "distinct (map student_id (getAllStudents a))"
proof -
  define xs where "xs = roster a @ uniqueUsersFromCheckins (checkins a)"
  have "\<forall>p\<in>set (combine_loop xs []). fst p = student_id (snd p)"
    using combine_loop_inv [of "[]" xs] by simp
  then have e: "map student_id (map snd (combine_loop xs [])) = map fst (combine_loop xs [])"
    by (rule map_fst_ids)
  have d: "distinct (map fst (combine_loop xs []))"
    using combine_loop_distinct [of "[]" xs] by simp
  have "distinct (map student_id (map snd (combine_loop xs [])))"
    unfolding e by (rule d)
  then show ?thesis
    unfolding getAllStudents_def Let_def xs_def .
qed

lemma getAllStudents_find:
  "find (\<lambda>s. student_id s = k) (getAllStudents a) =
     (case find (\<lambda>s. student_id s = k) (roster a) of
        Some e \<Rightarrow> Some e
      | None \<Rightarrow> find (\<lambda>s. student_id s = k) (uniqueUsersFromCheckins (checkins a)))"
proof -
  have "find (\<lambda>s. student_id s = k) (getAllStudents a) =
      find (\<lambda>s. student_id s = k) (roster a @ uniqueUsersFromCheckins (checkins a))"
    using combine_loop_find [of "[]" k "roster a @ uniqueUsersFromCheckins (checkins a)"]
    by (simp add: getAllStudents_def Let_def)
  then show ?thesis by (simp add: find_append)
qed

text \<open>
  C8. The combined student list has no two entries with the same id, and for every
  roster entry the entry of the combined list with that id is the roster's first entry
  with that id: where the roster and the check-ins know the same id, the entry and the
  name that the roster declares are kept.
\<close>

theorem students_unique_roster_first:
  "distinct (map student_id (getAllStudents a))
   \<and> (\<forall>r\<in>set (roster a).
        find (\<lambda>s. student_id s = student_id r) (getAllStudents a)
          = find (\<lambda>s. student_id s = student_id r) (roster a))"
proof -
  have "find (\<lambda>s. student_id s = student_id r) (getAllStudents a)
          = find (\<lambda>s. student_id s = student_id r) (roster a)"
    if "r \<in> set (roster a)" for r
  proof -
    from that obtain e where "find (\<lambda>s. student_id s = student_id r) (roster a) = Some e"
      by (cases "find (\<lambda>s. student_id s = student_id r) (roster a)")
         (auto simp: find_None_iff)
    then show ?thesis
      using getAllStudents_find [of "student_id r" a] by simp
  qed
  then show ?thesis
    using getAllStudents_distinct [of a] by blast
qed

theorem students_unique_roster_first_witness:
  "roster example_agent =
     [\<lparr>student_id = Some ''alice'', student_name = Some ''Alice A.''\<rparr>,
      \<lparr>student_id = Some ''bob'', student_name = Some ''bob''\<rparr>]
   \<and> uniqueUsersFromCheckins (checkins example_agent) =
     [\<lparr>student_id = Some ''alice'', student_name = Some ''ali''\<rparr>,
      \<lparr>student_id = Some ''carol'', student_name = Some ''carol''\<rparr>]
   \<and> distinct (map student_id (getAllStudents example_agent))
   \<and> find (\<lambda>s. student_id s = Some ''alice'') (getAllStudents example_agent)
       = Some \<lparr>student_id = Some ''alice'', student_name = Some ''Alice A.''\<rparr>"
proof -
  have r: "roster example_agent =
     [\<lparr>student_id = Some ''alice'', student_name = Some ''Alice A.''\<rparr>,
      \<lparr>student_id = Some ''bob'', student_name = Some ''bob''\<rparr>]"
    by code_simp
  have u: "uniqueUsersFromCheckins (checkins example_agent) =
     [\<lparr>student_id = Some ''alice'', student_name = Some ''ali''\<rparr>,
      \<lparr>student_id = Some ''carol'', student_name = Some ''carol''\<rparr>]"
    by code_simp
  from students_unique_roster_first [of example_agent]
  have d: "distinct (map student_id (getAllStudents example_agent))"
    and f: "\<forall>r\<in>set (roster example_agent).
        find (\<lambda>s. student_id s = student_id r) (getAllStudents example_agent)
          = find (\<lambda>s. student_id s = student_id r) (roster example_agent)"
    by blast+
  have "find (\<lambda>s. student_id s = Some ''alice'') (getAllStudents example_agent)
       = Some \<lparr>student_id = Some ''alice'', student_name = Some ''Alice A.''\<rparr>"
    using f unfolding r by simp
  then show ?thesis using r u d by blast
qed

text \<open>
  C6. For every window, no student that \<open>findMissingCheckins\<close> returns has the user id of
  a check-in inside the window; the students returned are exactly the students without
  such a check-in.
\<close>

theorem missing_disjoint_from_present:
  "(\<forall>s\<in>set (findMissingCheckins a start end).
      \<forall>c\<in>set (getCheckinsByDateRange a start end). student_id s \<noteq> Some (user_id c))
   \<and> set (findMissingCheckins a start end) =
       {s \<in> set (getAllStudents a).
          \<forall>c\<in>set (getCheckinsByDateRange a start end). student_id s \<noteq> Some (user_id c)}"
  unfolding findMissingCheckins_def Let_def
  by (auto split: option.splits)

theorem missing_disjoint_from_present_witness:
  "findMissingCheckins example_agent (Valid 1727740800000) (Valid 1727827199999)
     = [\<lparr>student_id = Some ''bob'', student_name = Some ''bob''\<rparr>]
   \<and> map user_id (getCheckinsByDateRange example_agent (Valid 1727740800000) (Valid 1727827199999))
     = [''alice'', ''carol'']
   \<and> set (map student_id
        (findMissingCheckins example_agent (Valid 1727740800000) (Valid 1727827199999)))
       \<inter> Some ` set (map user_id
           (getCheckinsByDateRange example_agent (Valid 1727740800000) (Valid 1727827199999)))
     = {}"
proof -
  have m: "findMissingCheckins example_agent (Valid 1727740800000) (Valid 1727827199999)
     = [\<lparr>student_id = Some ''bob'', student_name = Some ''bob''\<rparr>]"
    by code_simp
  have p: "map user_id (getCheckinsByDateRange example_agent (Valid 1727740800000) (Valid 1727827199999))
     = [''alice'', ''carol'']"
    by code_simp
  show ?thesis
    using missing_disjoint_from_present
      [of example_agent "Valid 1727740800000" "Valid 1727827199999"] m p
    by auto
qed


lemma round_half_even_near: "\<bar>of_int (round_half_even m) - m\<bar> \<le> 1 / 2"
proof -
  have "of_int \<lfloor>m\<rfloor> \<le> m" "m < of_int \<lfloor>m\<rfloor> + 1"
    by linarith+
  then show ?thesis
    by (auto simp: round_half_even_def Let_def abs_le_iff)
qed

lemma round_half_even_ge: "of_int M \<le> m \<Longrightarrow> M \<le> round_half_even m"
proof -
  assume "of_int M \<le> m"
  then have "M \<le> \<lfloor>m\<rfloor>" by (simp add: le_floor_iff)
  then show ?thesis
    by (auto simp: round_half_even_def Let_def)
qed

lemma binary_exponent_le:
  assumes x: "0 < x" and k: "x < 2 powi (k + 1)" "- 1022 \<le> k"
  shows "binary_exponent x \<le> k"
proof -
  obtain a b where q: "quotient_of x = (a, b)" by (cases "quotient_of x")
  then have b: "0 < b" and xe: "x = of_int a / of_int b"
    using quotient_of_denom_pos quotient_of_div by blast+
  then have a: "0 < a" using x by (simp add: zero_less_divide_iff)
  define c where "c = bitlen a - bitlen b"
  define e where "e = (if 2 powi c \<le> x then c else c - 1)"
  have low: "(2::rat) powi (c - 1) \<le> x"
  proof -
    have la: "(2::int) ^ nat (bitlen a - 1) \<le> a" and lb: "b < 2 ^ nat (bitlen b)"
      using bitlen_bounds a b by blast+
    have pa: "1 \<le> bitlen a" "1 \<le> bitlen b"
      using a b bitlen_eq_zero_iff [of a] bitlen_eq_zero_iff [of b] bitlen_nonneg [of a]
        bitlen_nonneg [of b] by linarith+
    have ra: "(2::rat) powi (bitlen a - 1) \<le> of_int a"
    proof -
      have "(of_int ((2::int) ^ nat (bitlen a - 1)) :: rat) \<le> of_int a"
        using la by (simp only: of_int_le_iff)
      then show ?thesis using pa by (simp add: power_int_nonneg_exp)
    qed
    have rb: "(of_int b :: rat) \<le> 2 powi (bitlen b)"
    proof -
      have "(of_int b :: rat) < of_int ((2::int) ^ nat (bitlen b))"
        using lb by (simp only: of_int_less_iff)
      then show ?thesis using pa by (simp add: power_int_nonneg_exp)
    qed
    have "(2::rat) powi (c - 1) = 2 powi (bitlen a - 1) / 2 powi (bitlen b)"
      by (simp add: c_def power_int_diff)
    also have "\<dots> \<le> of_int a / 2 powi (bitlen b)"
      using ra by (simp add: divide_right_mono)
    also have "\<dots> \<le> of_int a / of_int b"
      using rb a b by (simp add: divide_left_mono)
    finally show ?thesis by (simp add: xe)
  qed
  have "(2::rat) powi e \<le> x"
    using low by (simp add: e_def)
  then have "(2::rat) powi e < 2 powi (k + 1)"
    using k(1) by simp
  then have "e < k + 1"
    by (metis not_less power_int_increasing one_le_numeral)
  moreover have "binary_exponent x = max (- 1022) e"
    unfolding binary_exponent_def q e_def c_def by (simp add: Let_def)
  ultimately show ?thesis
    using k(2) by simp
qed

lemma round_positive_near:
  "\<bar>round_positive x - x\<bar> \<le> 2 powi (binary_exponent x - 53)"
proof -
  define u :: rat where "u = 2 powi (binary_exponent x - 52)"
  have u: "0 < u" by (simp add: u_def)
  have h: "u / 2 = 2 powi (binary_exponent x - 53)"
    by (simp add: u_def power_int_diff)
  have "round_positive x - x = (of_int (round_half_even (x / u)) - x / u) * u"
    using u by (simp add: round_positive_def u_def [symmetric] Let_def algebra_simps)
  then have "\<bar>round_positive x - x\<bar> = \<bar>of_int (round_half_even (x / u)) - x / u\<bar> * u"
    using u by (simp add: abs_mult)
  also have "\<dots> \<le> (1 / 2) * u"
    using round_half_even_near [of "x / u"] u by (simp add: mult_right_mono)
  finally show ?thesis using h by simp
qed

lemma round_positive_ge_multiple:
  assumes "of_int M * 2 powi (binary_exponent x - 52) \<le> x"
  shows "of_int M * 2 powi (binary_exponent x - 52) \<le> round_positive x"
proof -
  define u :: rat where "u = 2 powi (binary_exponent x - 52)"
  have u: "0 < u" by (simp add: u_def)
  from assms have "of_int M \<le> x / u"
    using u by (simp add: u_def [symmetric] pos_le_divide_eq)
  then have "M \<le> round_half_even (x / u)"
    by (rule round_half_even_ge)
  then have "(of_int M :: rat) \<le> of_int (round_half_even (x / u))"
    by simp
  then show ?thesis
    using u by (simp add: round_positive_def u_def [symmetric] Let_def mult_right_mono)
qed

lemma to_double_near:
  assumes "0 < x" "x < 4"
  shows "\<bar>to_double x - x\<bar> \<le> 2 powi (- 52)"
proof -
  have e: "binary_exponent x \<le> 1"
    using binary_exponent_le [of x 1] assms by simp
  have "\<bar>round_positive x - x\<bar> \<le> 2 powi (binary_exponent x - 53)"
    by (rule round_positive_near)
  also have "\<dots> \<le> 2 powi (- 52)"
    using e by (intro power_int_increasing) simp_all
  finally show ?thesis
    using assms by (simp add: to_double_def)
qed

lemma to_double_ge_quarters:
  assumes "0 < x" "x < 4" "of_int T / 4 \<le> x"
  shows "of_int T / 4 \<le> to_double x"
proof -
  define e where "e = binary_exponent x"
  have e: "e \<le> 1"
    unfolding e_def using binary_exponent_le [of x 1] assms by simp
  define M where "M = T * 2 ^ nat (50 - e)"
  have "(of_int M :: rat) = of_int T * 2 powi (50 - e)"
    using e by (simp add: M_def power_int_nonneg_exp)
  then have "(of_int M :: rat) * 2 powi (e - 52) = of_int T * (2 powi (50 - e) * 2 powi (e - 52))"
    by simp
  also have "(2::rat) powi (50 - e) * 2 powi (e - 52) = 2 powi (- 2)"
    by (simp add: power_int_add [symmetric])
  finally have m: "(of_int M :: rat) * 2 powi (e - 52) = of_int T / 4"
    by (simp add: power_int_minus_divide)
  then have "of_int M * 2 powi (binary_exponent x - 52) \<le> round_positive x"
    using round_positive_ge_multiple [of M x] assms(3) by (simp add: e_def)
  then show ?thesis
    using m assms by (simp add: to_double_def e_def)
qed

lemma QUALITY_TO_SCORE_enum:
  "l \<in> {''Strong'', ''Medium'', ''Weak''} \<Longrightarrow> QUALITY_TO_SCORE l = Own (spec_weight l)"
  by (auto simp: QUALITY_TO_SCORE_def spec_weight_def)

lemma score_reduce_enum:
  "\<forall>x\<in>set xs. quality x \<in> {''Strong'', ''Medium'', ''Weak''} \<Longrightarrow>
   score_reduce xs (Some s) = Some (s + sum_list (map (\<lambda>e. spec_weight (quality e)) xs))"
proof (induction xs arbitrary: s)
  case Nil
  then show ?case by simp
next
  case (Cons x xs)
  then have q: "QUALITY_TO_SCORE (quality x) = Own (spec_weight (quality x))"
    using QUALITY_TO_SCORE_enum [of "quality x"] by simp
  have "\<forall>x\<in>set xs. quality x \<in> {''Strong'', ''Medium'', ''Weak''}"
    using Cons.prems by simp
  from Cons.IH [OF this, of "s + spec_weight (quality x)"] show ?case
    by (simp add: q add.assoc)
qed

lemma toFixed2_near:
  assumes "0 \<le> x"
  shows "\<bar>toFixed2 x - x\<bar> \<le> 1 / 200 \<and> (\<exists>k::int. toFixed2 x = of_int k / 100)"
proof -
  define k where "k = \<lfloor>x * 100 + 1 / 2\<rfloor>"
  have t: "toFixed2 x = of_int k / 100"
    using assms by (simp add: toFixed2_def k_def)
  have lo: "of_int k \<le> x * 100 + 1 / 2"
    unfolding k_def by (rule of_int_floor_le)
  have hi: "x * 100 + 1 / 2 < of_int k + 1"
    unfolding k_def by linarith
  have "of_int k / 100 - x \<le> 1 / 200" "- (1 / 200) \<le> of_int k / 100 - x"
    using lo hi by (simp_all add: field_simps)
  then have "\<bar>of_int k / 100 - x\<bar> \<le> 1 / 200"
    by linarith
  then show ?thesis unfolding t by blast
qed

lemma sum_weights_bounds:
  "int (length xs) \<le> sum_list (map (\<lambda>e. spec_weight (quality e)) xs)
   \<and> sum_list (map (\<lambda>e. spec_weight (quality e)) xs) \<le> 3 * int (length xs)"
  by (induction xs) (auto simp: spec_weight_def)

lemma spec_mean_bounds:
  assumes "es \<noteq> []"
  shows "1 \<le> spec_mean es \<and> spec_mean es \<le> 3"
proof -
  define S where "S = sum_list (map (\<lambda>e. spec_weight (quality e)) es)"
  have n: "0 < length es" using assms by simp
  have "int (length es) \<le> S" "S \<le> 3 * int (length es)"
    using sum_weights_bounds [of es] by (simp_all add: S_def)
  then have "(of_nat (length es) :: rat) \<le> of_int S" "(of_int S :: rat) \<le> 3 * of_nat (length es)"
    by (metis of_int_le_iff of_int_of_nat_eq, metis of_int_le_iff of_int_of_nat_eq of_int_mult of_int_numeral)
  then show ?thesis
    using n by (simp add: spec_mean_def S_def [symmetric] field_simps)
qed

lemma threshold_exact:
  fixes S T :: int and n :: nat
  assumes n: "0 < n" "n < 2 ^ 32" and q: "0 < (of_int S / of_nat n :: rat)" "(of_int S / of_nat n :: rat) < 4"
  shows "(of_int T / 4 \<le> to_double (of_int S / of_nat n)) = (of_int T / 4 \<le> (of_int S / of_nat n :: rat))"
proof
  assume "of_int T / 4 \<le> (of_int S / of_nat n :: rat)"
  then show "of_int T / 4 \<le> to_double (of_int S / of_nat n)"
    using to_double_ge_quarters [OF q] by simp
next
  assume d: "of_int T / 4 \<le> to_double (of_int S / of_nat n)"
  show "of_int T / 4 \<le> (of_int S / of_nat n :: rat)"
  proof (rule ccontr)
    assume "\<not> of_int T / 4 \<le> (of_int S / of_nat n :: rat)"
    then have "(of_int S / of_nat n :: rat) < of_int T / 4" by simp
    then have "(of_int (4 * S) :: rat) < of_int (T * int n)"
      using n(1) by (simp add: field_simps)
    then have "4 * S < T * int n" by (simp only: of_int_less_iff)
    then have "4 * S + 1 \<le> T * int n" by simp
    then have "(of_int (4 * S + 1) :: rat) \<le> of_int (T * int n)" by (simp only: of_int_le_iff)
    then have g: "(of_int S / of_nat n :: rat) + 1 / (4 * of_nat n) \<le> of_int T / 4"
      using n(1) by (simp add: field_simps)
    have "4 * n < 2 ^ 34" using n(2) by simp
    then have "(of_nat (4 * n) :: rat) < of_nat (2 ^ 34)" by (simp only: of_nat_less_iff)
    then have "(4 * of_nat n :: rat) < 2 ^ 34" by simp
    then have "1 / (2 ^ 34 :: rat) < 1 / (4 * of_nat n)"
      using n(1) by (intro divide_strict_left_mono) simp_all
    moreover have "(2 :: rat) powi (- 52) < 1 / 2 ^ 34"
      by (simp add: power_int_minus_divide)
    ultimately have s: "(2 :: rat) powi (- 52) < 1 / (4 * of_nat n)" by linarith
    have "\<bar>to_double (of_int S / of_nat n) - of_int S / of_nat n\<bar> \<le> 2 powi (- 52)"
      by (rule to_double_near [OF q])
    then have "to_double (of_int S / of_nat n) < of_int S / of_nat n + 1 / (4 * of_nat n)"
      using s by linarith
    then show False using g d by linarith
  qed
qed

lemma spec_window_label_double:
  assumes "es \<noteq> []" "length es < 2 ^ 32"
  shows "spec_window_label (to_double (spec_mean es)) = spec_window_label (spec_mean es)"
proof -
  have b: "0 < spec_mean es" "spec_mean es < 4"
    using spec_mean_bounds [OF assms(1)] by simp_all
  have n: "0 < length es" using assms(1) by simp
  have t: "(of_int T / 4 \<le> to_double (spec_mean es)) = (of_int T / 4 \<le> spec_mean es)" for T :: int
    using threshold_exact [OF n assms(2), of "sum_list (map (\<lambda>e. spec_weight (quality e)) es)" T] b
    by (simp add: spec_mean_def)
  have "(5 / 2 \<le> to_double (spec_mean es)) = (5 / 2 \<le> spec_mean es)"
    using t [of 10] by simp
  moreover have "(7 / 4 \<le> to_double (spec_mean es)) = (7 / 4 \<le> spec_mean es)"
    using t [of 7] by simp
  ultimately show ?thesis
    by (simp add: spec_window_label_def)
qed

lemma reported_average_near:
  assumes "es \<noteq> []"
  shows "\<bar>toFixed2 (to_double (spec_mean es)) - spec_mean es\<bar> \<le> 1 / 200 + 2 powi (- 52)
     \<and> (\<exists>k::int. toFixed2 (to_double (spec_mean es)) = of_int k / 100)"
proof -
  have b: "0 < spec_mean es" "spec_mean es < 4"
    using spec_mean_bounds [OF assms] by simp_all
  have "of_int 0 / 4 \<le> to_double (spec_mean es)"
    using b by (intro to_double_ge_quarters) simp_all
  then have p: "0 \<le> to_double (spec_mean es)" by simp
  have d: "\<bar>to_double (spec_mean es) - spec_mean es\<bar> \<le> 2 powi (- 52)"
    by (rule to_double_near [OF b])
  have f: "\<bar>toFixed2 (to_double (spec_mean es)) - to_double (spec_mean es)\<bar> \<le> 1 / 200"
    using toFixed2_near [OF p] by blast
  have "\<bar>toFixed2 (to_double (spec_mean es)) - spec_mean es\<bar> \<le> 1 / 200 + 2 powi (- 52)"
    using d f by linarith
  then show ?thesis
    using toFixed2_near [OF p] by blast
qed

lemma summarizeRange_enum:
  assumes ne: "getCheckinsForUser a u s e \<noteq> []"
    and en: "\<forall>x\<in>set (getCheckinsForUser a u s e). quality x \<in> {''Strong'', ''Medium'', ''Weak''}"
  shows "\<exists>sm. summarizeRange a u s e = Some sm
     \<and> total_checkins sm = length (getCheckinsForUser a u s e)
     \<and> average_quality_score sm
         = Some (toFixed2 (to_double (spec_mean (getCheckinsForUser a u s e))))
     \<and> s_quality sm = spec_window_label (to_double (spec_mean (getCheckinsForUser a u s e)))"
proof -
  have r: "score_reduce (getCheckinsForUser a u s e) (Some 0) =
      Some (sum_list (map (\<lambda>e. spec_weight (quality e)) (getCheckinsForUser a u s e)))"
    using score_reduce_enum [OF en, of 0] by simp
  show ?thesis
    using ne by (simp add: summarizeRange_def Let_def r spec_mean_def spec_window_label_def)
qed

lemma to_double_3: "to_double 3 = 3"
  by code_simp

lemma toFixed2_3: "toFixed2 3 = 3"
proof -
  have "\<lfloor>601 / 2 :: rat\<rfloor> = 300" by (simp add: floor_eq_iff)
  then show ?thesis by (simp add: toFixed2_def)
qed

lemma window_filter_inverted:
  "e < s \<Longrightarrow> getCheckinsByDateRange a (Valid s) (Valid e) = []"
proof -
  assume "e < s"
  then have "\<not> (isSameOrAfter d (Valid s) \<and> isSameOrBefore d (Valid e))" for d
    by (cases d) simp_all
  then show ?thesis
    by (simp add: getCheckinsByDateRange_def)
qed

lemma window_filter_instant:
  "getCheckinsByDateRange a (Valid t) (Valid t) = filter (\<lambda>c. timestamp c = Valid t) (checkins a)"
proof -
  have "(isSameOrAfter d (Valid t) \<and> isSameOrBefore d (Valid t)) = (d = Valid t)" for d
    by (cases d) auto
  then show ?thesis
    by (simp add: getCheckinsByDateRange_def)
qed

lemma summarizeRange_no_entries:
  "getCheckinsForUser a u s e = [] \<Longrightarrow> summarizeRange a u s e = None"
  by (simp add: summarizeRange_def)

lemma getCheckinsForUser_objects:
  "getCheckinsForUser a u (dayjs_object s) (dayjs_object e)
     = filter (\<lambda>c. Some (user_id c) = u) (getCheckinsByDateRange a s e)"
  by (simp add: getCheckinsForUser_def dayjs_object_def)

lemma getCheckinsForUser_truthy:
  "is_truthy st \<Longrightarrow> is_truthy en \<Longrightarrow>
   getCheckinsForUser a u st en
     = filter (\<lambda>c. Some (user_id c) = u) (getCheckinsByDateRange a (as_dayjs st) (as_dayjs en))"
  by (simp add: getCheckinsForUser_def)

lemma getCheckinsForUser_falsy:
  "\<not> (is_truthy st \<and> is_truthy en) \<Longrightarrow>
   getCheckinsForUser a u st en = filter (\<lambda>c. Some (user_id c) = u) (checkins a)"
  by (auto simp: getCheckinsForUser_def)

text \<open>
  C7, amended. When the end of a window is before its start, the filter
  \<open>getCheckinsByDateRange\<close> returns no check-in, and \<open>summarizeRange\<close> returns null
  when both bounds are passed as truthy values that \<open>dayjs\<close> reads as these instants (a
  dayjs object, a non-empty string, a number other than 0). A window of length zero
  returns exactly the check-ins whose timestamp is that instant, which is the empty list,
  with a null summary under the same condition on the bounds, only when there is no such
  check-in. When a bound is falsy (0, the empty string, null, undefined),
  \<open>getCheckinsForUser\<close> does not filter by date at all and returns every check-in of
  the user. The results are values, never errors.
\<close>

theorem inverted_window_is_empty:
  "(e < s \<longrightarrow> getCheckinsByDateRange a (Valid s) (Valid e) = [])
   \<and> (e < s \<and> is_truthy st \<and> is_truthy en \<and> as_dayjs st = Valid s \<and> as_dayjs en = Valid e \<longrightarrow>
        getCheckinsForUser a u st en = [] \<and> summarizeRange a u st en = None)
   \<and> getCheckinsByDateRange a (Valid t) (Valid t)
       = filter (\<lambda>c. timestamp c = Valid t) (checkins a)
   \<and> ((\<forall>c\<in>set (checkins a). timestamp c \<noteq> Valid t) \<longrightarrow>
        getCheckinsByDateRange a (Valid t) (Valid t) = [])
   \<and> ((\<forall>c\<in>set (checkins a). timestamp c \<noteq> Valid t)
        \<and> is_truthy st \<and> is_truthy en \<and> as_dayjs st = Valid t \<and> as_dayjs en = Valid t \<longrightarrow>
        getCheckinsForUser a u st en = [] \<and> summarizeRange a u st en = None)
   \<and> (\<not> (is_truthy st \<and> is_truthy en) \<longrightarrow>
        getCheckinsForUser a u st en = filter (\<lambda>c. Some (user_id c) = u) (checkins a))"
proof -
  have 1: "getCheckinsForUser a u st en = []"
    if "e < s \<and> is_truthy st \<and> is_truthy en \<and> as_dayjs st = Valid s \<and> as_dayjs en = Valid e"
    using that by (simp add: getCheckinsForUser_truthy window_filter_inverted)
  have 2: "getCheckinsByDateRange a (Valid t) (Valid t) = []"
    if "\<forall>c\<in>set (checkins a). timestamp c \<noteq> Valid t"
    using that by (simp add: window_filter_instant)
  have 3: "getCheckinsForUser a u st en = []"
    if "(\<forall>c\<in>set (checkins a). timestamp c \<noteq> Valid t)
        \<and> is_truthy st \<and> is_truthy en \<and> as_dayjs st = Valid t \<and> as_dayjs en = Valid t"
    using that 2 by (simp add: getCheckinsForUser_truthy)
  show ?thesis
    using 1 2 3 summarizeRange_no_entries [of a u st en] window_filter_inverted [of e s a]
      window_filter_instant [of a t] getCheckinsForUser_falsy [of st en a u]
    by blast
qed

theorem inverted_window_is_empty_witness:
  "(1727740800000 :: int) < 1727827199999
   \<and> getCheckinsByDateRange example_agent (Valid 1727827199999) (Valid 1727740800000) = []
   \<and> summarizeRange example_agent (Some ''alice'') (dayjs_object (Valid 1727827199999))
        (dayjs_object (Valid 1727740800000)) = None
   \<and> list_all (\<lambda>c. timestamp c \<noteq> Valid 5) (checkins example_agent)
   \<and> getCheckinsByDateRange example_agent (Valid 5) (Valid 5) = []
   \<and> summarizeRange example_agent (Some ''alice'') (dayjs_object (Valid 5))
        (dayjs_object (Valid 5)) = None
   \<and> getCheckinsForUser example_agent (Some ''alice'')
        \<lparr>is_truthy = True, as_dayjs = Valid 1727827199999\<rparr> \<lparr>is_truthy = False, as_dayjs = Valid 0\<rparr>
       = filter (\<lambda>c. Some (user_id c) = Some ''alice'') (checkins example_agent)"
proof -
  have h: "(1727740800000 :: int) < 1727827199999" by simp
  have l: "list_all (\<lambda>c. timestamp c \<noteq> Valid 5) (checkins example_agent)"
    by code_simp
  then have b: "\<forall>c\<in>set (checkins example_agent). timestamp c \<noteq> Valid 5"
    by (simp add: list_all_iff)
  have i: "getCheckinsByDateRange example_agent (Valid 1727827199999) (Valid 1727740800000) = []
     \<and> summarizeRange example_agent (Some ''alice'') (dayjs_object (Valid 1727827199999))
        (dayjs_object (Valid 1727740800000)) = None"
    using inverted_window_is_empty
      [of 1727740800000 1727827199999 example_agent "dayjs_object (Valid 1727827199999)"
          "dayjs_object (Valid 1727740800000)" "Some ''alice''" 5] h
    by (simp add: dayjs_object_def)
  have z: "getCheckinsByDateRange example_agent (Valid 5) (Valid 5) = []
     \<and> summarizeRange example_agent (Some ''alice'') (dayjs_object (Valid 5))
        (dayjs_object (Valid 5)) = None"
    using inverted_window_is_empty
      [of 0 1 example_agent "dayjs_object (Valid 5)" "dayjs_object (Valid 5)" "Some ''alice''" 5] b
    by (simp add: dayjs_object_def)
  have f: "getCheckinsForUser example_agent (Some ''alice'')
        \<lparr>is_truthy = True, as_dayjs = Valid 1727827199999\<rparr> \<lparr>is_truthy = False, as_dayjs = Valid 0\<rparr>
       = filter (\<lambda>c. Some (user_id c) = Some ''alice'') (checkins example_agent)"
    using inverted_window_is_empty
      [of 0 1 example_agent "\<lparr>is_truthy = True, as_dayjs = Valid 1727827199999\<rparr>"
          "\<lparr>is_truthy = False, as_dayjs = Valid 0\<rparr>" "Some ''alice''" 5]
    by simp
  show ?thesis
    using h l i z f by simp
qed

theorem zero_length_window_counterexample:
  "map message_id (getCheckinsByDateRange example_agent (Valid 1727740800000) (Valid 1727740800000))
     = [''m3'']
   \<and> summarizeRange example_agent (Some ''carol'') (dayjs_object (Valid 1727740800000))
        (dayjs_object (Valid 1727740800000)) \<noteq> None
   \<and> (0 :: int) < 1727827199999
   \<and> map_option total_checkins
        (summarizeRange example_agent (Some ''alice'')
           \<lparr>is_truthy = True, as_dayjs = Valid 1727827199999\<rparr>
           \<lparr>is_truthy = False, as_dayjs = Valid 0\<rparr>) = Some 2"
  by code_simp

text \<open>
  C3, amended. \<open>summarizeRange\<close> returns null when no entry of the user falls in the
  window. For a window whose only entry is Strong it reports the average 3 and the label
  Strong. For a non-empty window (an array, so fewer than \<open>2\<^sup>3\<^sup>2\<close> entries) of entries
  labelled Strong, Medium or Weak the reported average is the two-decimal rounding of the
  double nearest the mean of the weights 3, 2 and 1: a multiple of a hundredth within
  \<open>0.005 + 2\<^sup>-\<^sup>5\<^sup>2\<close> of the mean. The label is read off the mean before it is rounded,
  not off the reported average: Strong when the mean is at least 2.5, Medium when it is
  at least 1.75, and Weak otherwise.
\<close>

theorem summarizeRange_average:
  "(getCheckinsForUser a u s e = [] \<longrightarrow> summarizeRange a u s e = None)
   \<and> ((\<exists>x. getCheckinsForUser a u s e = [x] \<and> quality x = ''Strong'') \<longrightarrow>
        (\<exists>sm. summarizeRange a u s e = Some sm \<and> average_quality_score sm = Some 3
           \<and> s_quality sm = ''Strong''))
   \<and> (getCheckinsForUser a u s e \<noteq> [] \<and> length (getCheckinsForUser a u s e) < 2 ^ 32
        \<and> (\<forall>x\<in>set (getCheckinsForUser a u s e). quality x \<in> {''Strong'', ''Medium'', ''Weak''}) \<longrightarrow>
        (\<exists>sm. summarizeRange a u s e = Some sm
           \<and> average_quality_score sm
               = Some (toFixed2 (to_double (spec_mean (getCheckinsForUser a u s e))))
           \<and> \<bar>toFixed2 (to_double (spec_mean (getCheckinsForUser a u s e)))
                - spec_mean (getCheckinsForUser a u s e)\<bar> \<le> 1 / 200 + 2 powi (- 52)
           \<and> (\<exists>k::int. toFixed2 (to_double (spec_mean (getCheckinsForUser a u s e))) = of_int k / 100)
           \<and> s_quality sm = spec_window_label (spec_mean (getCheckinsForUser a u s e))))"
proof (intro conjI impI)
  assume "getCheckinsForUser a u s e = []"
  then show "summarizeRange a u s e = None" by (rule summarizeRange_no_entries)
next
  assume "\<exists>x. getCheckinsForUser a u s e = [x] \<and> quality x = ''Strong''"
  then obtain x where x: "getCheckinsForUser a u s e = [x]" "quality x = ''Strong''" by blast
  have m: "spec_mean [x] = 3" using x(2) by (simp add: spec_mean_def spec_weight_def)
  from summarizeRange_enum [of a u s e] x
  show "\<exists>sm. summarizeRange a u s e = Some sm \<and> average_quality_score sm = Some 3
           \<and> s_quality sm = ''Strong''"
    by (auto simp: m to_double_3 toFixed2_3 spec_window_label_def)
next
  assume h: "getCheckinsForUser a u s e \<noteq> [] \<and> length (getCheckinsForUser a u s e) < 2 ^ 32
        \<and> (\<forall>x\<in>set (getCheckinsForUser a u s e). quality x \<in> {''Strong'', ''Medium'', ''Weak''})"
  then have n: "\<bar>toFixed2 (to_double (spec_mean (getCheckinsForUser a u s e)))
                - spec_mean (getCheckinsForUser a u s e)\<bar> \<le> 1 / 200 + 2 powi (- 52)
           \<and> (\<exists>k::int. toFixed2 (to_double (spec_mean (getCheckinsForUser a u s e))) = of_int k / 100)"
    using reported_average_near by blast
  have l: "spec_window_label (to_double (spec_mean (getCheckinsForUser a u s e)))
      = spec_window_label (spec_mean (getCheckinsForUser a u s e))"
    using h spec_window_label_double by blast
  from summarizeRange_enum [of a u s e] h n l
  show "\<exists>sm. summarizeRange a u s e = Some sm
           \<and> average_quality_score sm
               = Some (toFixed2 (to_double (spec_mean (getCheckinsForUser a u s e))))
           \<and> \<bar>toFixed2 (to_double (spec_mean (getCheckinsForUser a u s e)))
                - spec_mean (getCheckinsForUser a u s e)\<bar> \<le> 1 / 200 + 2 powi (- 52)
           \<and> (\<exists>k::int. toFixed2 (to_double (spec_mean (getCheckinsForUser a u s e))) = of_int k / 100)
           \<and> s_quality sm = spec_window_label (spec_mean (getCheckinsForUser a u s e))"
    by auto
qed

theorem summarizeRange_average_witness:
  "map message_id (getCheckinsForUser example_agent (Some ''alice'')
      (dayjs_object (Valid 1727740800000)) (dayjs_object (Valid 1727827199999))) = [''m1'']
   \<and> map quality (getCheckinsForUser example_agent (Some ''alice'')
      (dayjs_object (Valid 1727740800000)) (dayjs_object (Valid 1727827199999))) = [''Strong'']
   \<and> map_option average_quality_score (summarizeRange example_agent (Some ''alice'')
      (dayjs_object (Valid 1727740800000)) (dayjs_object (Valid 1727827199999))) = Some (Some 3)
   \<and> map_option s_quality (summarizeRange example_agent (Some ''alice'')
      (dayjs_object (Valid 1727740800000)) (dayjs_object (Valid 1727827199999))) = Some ''Strong''
   \<and> getCheckinsForUser example_agent (Some ''bob'')
      (dayjs_object (Valid 1727740800000)) (dayjs_object (Valid 1727827199999)) = []
   \<and> summarizeRange example_agent (Some ''bob'')
      (dayjs_object (Valid 1727740800000)) (dayjs_object (Valid 1727827199999)) = None
   \<and> map quality (getCheckinsForUser example_agent (Some ''alice'')
      (dayjs_object (Valid 1727740800000)) (dayjs_object (Valid 1727913599999)))
       = [''Strong'', ''Weak'']
   \<and> map_option average_quality_score (summarizeRange example_agent (Some ''alice'')
      (dayjs_object (Valid 1727740800000)) (dayjs_object (Valid 1727913599999))) = Some (Some 2)
   \<and> map_option s_quality (summarizeRange example_agent (Some ''alice'')
      (dayjs_object (Valid 1727740800000)) (dayjs_object (Valid 1727913599999))) = Some ''Medium''"
proof -
  let ?es = "getCheckinsForUser example_agent (Some ''alice'')
      (dayjs_object (Valid 1727740800000)) (dayjs_object (Valid 1727827199999))"
  let ?ws = "getCheckinsForUser example_agent (Some ''alice'')
      (dayjs_object (Valid 1727740800000)) (dayjs_object (Valid 1727913599999))"
  have i: "map message_id ?es = [''m1'']" by code_simp
  have q: "map quality ?es = [''Strong'']" by code_simp
  then have x: "\<exists>x. ?es = [x] \<and> quality x = ''Strong''"
    by (cases ?es) auto
  have b: "getCheckinsForUser example_agent (Some ''bob'')
      (dayjs_object (Valid 1727740800000)) (dayjs_object (Valid 1727827199999)) = []"
    by code_simp
  have w: "map quality ?ws = [''Strong'', ''Weak'']" by code_simp
  then have "set (map quality ?ws) \<subseteq> {''Strong'', ''Medium'', ''Weak''}" by simp
  then have en: "\<forall>x\<in>set ?ws. quality x \<in> {''Strong'', ''Medium'', ''Weak''}" by auto
  have "length (map quality ?ws) = 2" by (simp only: w) simp
  then have len: "?ws \<noteq> []" "length ?ws < 2 ^ 32" by auto
  have "sum_list (map spec_weight (map quality ?ws)) = 4"
    by (simp only: w) (simp add: spec_weight_def)
  then have "sum_list (map (\<lambda>e. spec_weight (quality e)) ?ws) = 4"
    by (simp add: comp_def)
  then have m: "spec_mean ?ws = 2"
    using \<open>length (map quality ?ws) = 2\<close> by (simp add: spec_mean_def)
  have d: "toFixed2 (to_double 2) = 2" by code_simp
  have l: "spec_window_label 2 = ''Medium''" by code_simp
  show ?thesis
    using summarizeRange_average [of example_agent "Some ''alice''"
        "dayjs_object (Valid 1727740800000)" "dayjs_object (Valid 1727827199999)"]
      summarizeRange_average [of example_agent "Some ''bob''"
        "dayjs_object (Valid 1727740800000)" "dayjs_object (Valid 1727827199999)"]
      summarizeRange_average [of example_agent "Some ''alice''"
        "dayjs_object (Valid 1727740800000)" "dayjs_object (Valid 1727913599999)"]
      i q x b w en len m d l
    by auto
qed

theorem rounded_average_counterexample:
  "map_option average_quality_score
      (summarizeRange fifty_one_agent (Some ''dana'') (dayjs_object (Valid 1727913600000))
         (dayjs_object (Valid 1727999999999))) = Some (Some (7 / 4))
   \<and> map_option s_quality
      (summarizeRange fifty_one_agent (Some ''dana'') (dayjs_object (Valid 1727913600000))
         (dayjs_object (Valid 1727999999999))) = Some ''Weak''
   \<and> spec_window_label (7 / 4) = ''Medium''
   \<and> spec_mean (getCheckinsForUser forty_agent (Some ''dana'')
        (dayjs_object (Valid 1727913600000)) (dayjs_object (Valid 1727999999999))) = 41 / 40
   \<and> toFixed2 (41 / 40) = 103 / 100
   \<and> map_option average_quality_score
      (summarizeRange forty_agent (Some ''dana'') (dayjs_object (Valid 1727913600000))
         (dayjs_object (Valid 1727999999999))) = Some (Some (51 / 50))"
  by code_simp


lemma summarizeRange_single:
  assumes "getCheckinsForUser a u s e = [x]"
  shows "\<exists>sm. summarizeRange a u s e = Some sm
     \<and> average_quality_score sm =
         (case QUALITY_TO_SCORE (quality x) of
            Own n \<Rightarrow> Some (toFixed2 (to_double (of_int n)))
          | Inherited \<Rightarrow> None
          | Absent \<Rightarrow> Some (toFixed2 0))
     \<and> (QUALITY_TO_SCORE (quality x) \<in> {Absent, Inherited} \<longrightarrow> s_quality sm = ''Weak'')"
  using assms
  by (cases "QUALITY_TO_SCORE (quality x)")
     (auto simp: summarizeRange_def Let_def to_double_def)

lemma unknown_label_weighs_nothing:
  assumes "l \<noteq> []"
    and "l \<notin> {''Strong'', ''Medium'', ''Weak''}"
    and "l \<notin> set Object_prototype_keys"
  shows "normalizeQuality (Some l) content = l
    \<and> (\<forall>c r. quality c = Some l \<longrightarrow> map quality (checkins (CheckInAgent [c] r)) = [l])
    \<and> QUALITY_TO_SCORE l = Absent
    \<and> (\<forall>x rest s. quality x = l \<longrightarrow> score_reduce (x # rest) (Some s) = score_reduce rest (Some s))
    \<and> (\<forall>a u s e x. getCheckinsForUser a u s e = [x] \<and> quality x = l \<longrightarrow>
          (\<exists>sm. summarizeRange a u s e = Some sm \<and> average_quality_score sm = Some 0
             \<and> s_quality sm = ''Weak''))"
proof -
  have n: "normalizeQuality (Some l) content = l" for content
    using assms(1) by (simp add: normalizeQuality_def)
  have q: "QUALITY_TO_SCORE l = Absent"
    using assms(2,3) by (simp add: QUALITY_TO_SCORE_def)
  have "\<lfloor>1 / 2 :: rat\<rfloor> = 0" by (simp add: floor_eq_iff)
  then have z: "toFixed2 0 = 0" by (simp add: toFixed2_def)
  have c: "map quality (checkins (CheckInAgent [c] r)) = [l]" if "quality c = Some l" for c r
    using that n by (simp add: CheckInAgent_def)
  have r: "score_reduce (x # rest) (Some s) = score_reduce rest (Some s)"
    if "quality x = l" for x rest s
    using that q by simp
  have w: "\<exists>sm. summarizeRange a u s e = Some sm \<and> average_quality_score sm = Some 0
             \<and> s_quality sm = ''Weak''"
    if "getCheckinsForUser a u s e = [x] \<and> quality x = l" for a u s e x
    using summarizeRange_single [of a u s e x] that q z by auto
  show ?thesis using n q c r w by blast
qed

text \<open>
  C10. The claim is that an entry whose pre-set label is outside Strong, Medium and Weak
  adds the weight 0 to the sum of \<open>summarizeRange\<close>. It does for a label such as
  \<open>Excellent\<close>, which is what \<open>QUALITY_TO_SCORE[item.quality] || 0\<close> is written for,
  but not for a label that names a property inherited from \<open>Object.prototype\<close>: the
  label \<open>constructor\<close> passes through the constructor unchanged, the lookup returns a
  function, which is truthy, the sum is no longer a number, and the reported average of
  a Strong entry and such an entry is NaN, not the 1.5 that the weights 3 and 0 give.
\<close>

theorem inherited_label_is_no_weight:
  "''constructor'' \<notin> {''Strong'', ''Medium'', ''Weak''}
   \<and> map quality (checkins (CheckInAgent [carol_oct1\<lparr>quality := Some ''constructor''\<rparr>] []))
       = [''constructor'']
   \<and> QUALITY_TO_SCORE ''constructor'' = Inherited
   \<and> map_option average_quality_score
        (summarizeRange (CheckInAgent [carol_oct1\<lparr>quality := Some ''constructor''\<rparr>] [])
           (Some ''carol'') (dayjs_object (Valid 1727740800000))
           (dayjs_object (Valid 1727827199999))) = Some None
   \<and> map quality
        (getCheckinsForUser (CheckInAgent [alice_oct1, alice_oct2\<lparr>quality := Some ''constructor''\<rparr>] [])
           (Some ''alice'') (dayjs_object (Valid 1727740800000))
           (dayjs_object (Valid 1727913599999))) = [''Strong'', ''constructor'']
   \<and> map_option average_quality_score
        (summarizeRange (CheckInAgent [alice_oct1, alice_oct2\<lparr>quality := Some ''constructor''\<rparr>] [])
           (Some ''alice'') (dayjs_object (Valid 1727740800000))
           (dayjs_object (Valid 1727913599999))) = Some None
   \<and> toFixed2 (to_double ((3 + 0) / 2)) = 3 / 2
   \<and> map_option average_quality_score
        (summarizeRange (CheckInAgent [alice_oct1, alice_oct2\<lparr>quality := Some ''Excellent''\<rparr>] [])
           (Some ''alice'') (dayjs_object (Valid 1727740800000))
           (dayjs_object (Valid 1727913599999))) = Some (Some (3 / 2))"
  by code_simp


lemma month_of_range: "0 \<le> month_of t \<and> month_of t \<le> 11"
  by (simp add: month_of_def MonthFromDayInYear_def Let_def)

lemma DaysBeforeMonth_step:
  "0 \<le> m \<Longrightarrow> m \<le> 10 \<Longrightarrow>
   DaysBeforeMonth leap (m + 1) = DaysBeforeMonth leap m + DaysInMonth leap m"
proof -
  assume "0 \<le> m" "m \<le> 10"
  then consider "m = 0" | "m = 1" | "m = 2" | "m = 3" | "m = 4" | "m = 5" | "m = 6"
    | "m = 7" | "m = 8" | "m = 9" | "m = 10"
    by atomize_elim arith
  then show ?thesis
    by cases (simp_all add: DaysBeforeMonth_def DaysInMonth_def)
qed

lemma MakeDay_month_length:
  assumes "0 \<le> m" "m \<le> 11"
  shows "MakeDay y (m + 1) 0 - MakeDay y m 1 = DaysInMonth (InLeapYear y) m - 1"
proof (cases "m = 11")
  case True
  then show ?thesis
    using DayFromYear_step [of y]
    by (simp add: MakeDay_def DaysBeforeMonth_def DaysInMonth_def)
next
  case False
  then have m: "0 \<le> m" "m \<le> 10" using assms by simp_all
  then have "m div 12 = 0" "m mod 12 = m" "(m + 1) div 12 = 0" "(m + 1) mod 12 = m + 1"
    by simp_all
  then show ?thesis
    using DaysBeforeMonth_step [OF m, of "InLeapYear y"]
    by (simp add: MakeDay_def)
qed

lemma time_clip_Valid: "time_clip x = Valid v \<Longrightarrow> v = x"
  by (simp add: time_clip_def split: if_splits)

lemma endOf_day_Valid:
  "endOf_day d = Valid v \<Longrightarrow> \<exists>t. d = Valid t \<and> v = t - t mod msPerDay + (msPerDay - 1)"
  by (cases d) (auto dest: time_clip_Valid)

lemma month_window_length:
  assumes y: "year_of t < 0 \<or> 99 < year_of t"
    and s: "startOf_month (Valid t) = Valid vs"
    and e: "endOf_month (Valid t) = Valid ve"
  shows "diff_day (Valid ve) (Valid vs) = Some (DaysInMonth (InLeapYear (year_of t)) (month_of t) - 1)"
proof -
  define ds where "ds = MakeDay (year_of t) (month_of t) 1"
  define de where "de = MakeDay (year_of t) (month_of t + 1) 0"
  define n where "n = DaysInMonth (InLeapYear (year_of t)) (month_of t)"
  have yy: "(if 0 \<le> year_of t \<and> year_of t \<le> 99 then 1900 + year_of t else year_of t) = year_of t"
    using y by auto
  have vs: "vs = ds * msPerDay"
    using s time_clip_Valid by (simp add: new_Date_def yy ds_def)
  from e obtain x where x: "new_Date (year_of t) (month_of t + 1) 0 = Valid x"
      and ve: "ve = x - x mod msPerDay + (msPerDay - 1)"
    using endOf_day_Valid by fastforce
  have "x = de * msPerDay"
    using x time_clip_Valid by (simp add: new_Date_def yy de_def)
  then have ve': "ve = de * msPerDay + (msPerDay - 1)"
    using ve by simp
  have d: "de - ds = n - 1"
    unfolding de_def ds_def n_def using MakeDay_month_length month_of_range by blast
  have n28: "28 \<le> n"
    by (simp add: n_def DaysInMonth_def)
  have de': "de = ds + (n - 1)"
    using d by simp
  have "ve - vs = (n - 1) * msPerDay + (msPerDay - 1)"
    unfolding ve' vs de' by (simp add: algebra_simps)
  moreover have "((n - 1) * msPerDay + (msPerDay - 1)) div msPerDay = n - 1"
    by (simp add: msPerDay_def)
  moreover have "0 \<le> (n - 1) * msPerDay + (msPerDay - 1)"
    using n28 by (simp add: msPerDay_def)
  ultimately show ?thesis
    by (simp add: n_def)
qed


text \<open>
  C1, amended. When the user has no check-in in the calendar month of the anchor,
  \<open>summarizeMonth\<close> returns null, as every summary of an empty window does, and so
  reports no consistency object. \<open>calculateConsistency\<close> itself, called on the window of
  that month, returns an object with \<open>days_checked_in\<close> 0 and percentage 0. Its
  \<open>period_length\<close> is the number of days of the month under three conditions on the
  anchor: it is a valid date, its year is not one of the years 0 to 99 (which
  \<open>new Date\<close> reads as 1900 to 1999), and the first and the last instant of its month
  are valid dates.
\<close>

theorem zero_entry_month:
  assumes "getCheckinsForUser a u (dayjs_object (startOf_month m)) (dayjs_object (endOf_month m)) = []"
  shows "summarizeMonth a u m = Inr None
    \<and> days_checked_in (calculateConsistency a u (dayjs_object (startOf_month m))
          (dayjs_object (endOf_month m))) = 0
    \<and> percentage (calculateConsistency a u (dayjs_object (startOf_month m))
          (dayjs_object (endOf_month m))) = Some 0
    \<and> (\<forall>t vs ve. m = Valid t \<and> (year_of t < 0 \<or> 99 < year_of t)
            \<and> startOf_month m = Valid vs \<and> endOf_month m = Valid ve \<longrightarrow>
          period_length (calculateConsistency a u (dayjs_object (startOf_month m))
            (dayjs_object (endOf_month m)))
            = Some (DaysInMonth (InLeapYear (year_of t)) (month_of t)))"
proof -
  have n: "summarizeMonth a u m = Inr None"
    using assms by (simp add: summarizeMonth_def Let_def summarizeRange_def)
  have c: "calculateConsistency a u (dayjs_object (startOf_month m)) (dayjs_object (endOf_month m))
      = \<lparr>days_checked_in = 0,
         period_length = map_option (\<lambda>n. n + 1) (diff_day (endOf_month m) (startOf_month m)),
         percentage = Some 0\<rparr>"
    using assms by (simp add: calculateConsistency_def Let_def dayjs_object_def)
  have p: "map_option (\<lambda>n. n + 1) (diff_day (endOf_month m) (startOf_month m))
      = Some (DaysInMonth (InLeapYear (year_of t)) (month_of t))"
    if "m = Valid t \<and> (year_of t < 0 \<or> 99 < year_of t)
            \<and> startOf_month m = Valid vs \<and> endOf_month m = Valid ve" for t vs ve
    using that month_window_length [of t vs ve] by auto
  have "period_length (calculateConsistency a u (dayjs_object (startOf_month m))
            (dayjs_object (endOf_month m)))
            = Some (DaysInMonth (InLeapYear (year_of t)) (month_of t))"
    if "m = Valid t \<and> (year_of t < 0 \<or> 99 < year_of t)
            \<and> startOf_month m = Valid vs \<and> endOf_month m = Valid ve" for t vs ve
    unfolding c using p [OF that] by simp
  moreover have "days_checked_in (calculateConsistency a u (dayjs_object (startOf_month m))
          (dayjs_object (endOf_month m))) = 0"
    "percentage (calculateConsistency a u (dayjs_object (startOf_month m))
          (dayjs_object (endOf_month m))) = Some 0"
    unfolding c by simp_all
  ultimately show ?thesis
    using n by blast
qed

theorem zero_entry_month_witness:
  "getCheckinsForUser example_agent (Some ''bob'')
      (dayjs_object (startOf_month (Valid 1727776800000)))
      (dayjs_object (endOf_month (Valid 1727776800000))) = []
   \<and> summarizeMonth example_agent (Some ''bob'') (Valid 1727776800000) = Inr None
   \<and> year_of 1727776800000 = 2024 \<and> month_of 1727776800000 = 9
   \<and> startOf_month (Valid 1727776800000) = Valid 1727740800000
   \<and> endOf_month (Valid 1727776800000) = Valid 1730419199999
   \<and> period_length (calculateConsistency example_agent (Some ''bob'')
         (dayjs_object (startOf_month (Valid 1727776800000)))
         (dayjs_object (endOf_month (Valid 1727776800000)))) = Some 31"
proof -
  have h: "getCheckinsForUser example_agent (Some ''bob'')
      (dayjs_object (startOf_month (Valid 1727776800000)))
      (dayjs_object (endOf_month (Valid 1727776800000))) = []"
    by code_simp
  have y: "year_of 1727776800000 = 2024" by code_simp
  have mo: "month_of 1727776800000 = 9" by code_simp
  have s: "startOf_month (Valid 1727776800000) = Valid 1727740800000" by code_simp
  have e: "endOf_month (Valid 1727776800000) = Valid 1730419199999" by code_simp
  have d: "DaysInMonth (InLeapYear 2024) 9 = 31" by code_simp
  from zero_entry_month [OF h]
  have "summarizeMonth example_agent (Some ''bob'') (Valid 1727776800000) = Inr None"
    and "\<forall>t vs ve. Valid 1727776800000 = Valid t \<and> (year_of t < 0 \<or> 99 < year_of t)
            \<and> startOf_month (Valid 1727776800000) = Valid vs
            \<and> endOf_month (Valid 1727776800000) = Valid ve \<longrightarrow>
          period_length (calculateConsistency example_agent (Some ''bob'')
            (dayjs_object (startOf_month (Valid 1727776800000)))
            (dayjs_object (endOf_month (Valid 1727776800000))))
            = Some (DaysInMonth (InLeapYear (year_of t)) (month_of t))"
    by blast+
  then show ?thesis
    using h y mo s e d by simp
qed

theorem zero_entry_month_counterexample:
  "getCheckinsForUser example_agent (Some ''bob'')
      (dayjs_object (startOf_month (Valid 1727776800000)))
      (dayjs_object (endOf_month (Valid 1727776800000))) = []
   \<and> summarizeMonth example_agent (Some ''bob'') (Valid 1727776800000) = Inr None"
  by code_simp

lemma extractBlockers_total:
  "\<forall>c\<in>set es. message_content c \<noteq> None \<Longrightarrow> \<exists>bs. extractBlockers es = Inr bs"
proof (induction es)
  case Nil
  then show ?case by simp
next
  case (Cons c es)
  then obtain bs where "extractBlockers es = Inr bs" by auto
  moreover obtain m where "message_content c = Some m" using Cons.prems by auto
  ultimately show ?case by simp
qed

lemma getCheckinsForUser_subset: "set (getCheckinsForUser a u s e) \<subseteq> set (checkins a)"
  by (auto simp: getCheckinsForUser_def getCheckinsByDateRange_def Let_def)

lemma summarizeRange_entries:
  "summarizeRange a u s e = Some sm \<Longrightarrow> set (s_entries sm) \<subseteq> set (checkins a)"
  using getCheckinsForUser_subset [of a u s e]
  by (auto simp: summarizeRange_def Let_def split: if_splits)

lemma summarizeWeek_total:
  assumes "\<forall>c\<in>set (checkins a). message_content c \<noteq> None"
  shows "\<exists>r. summarizeWeek a u w = Inr r"
proof (cases "summarizeRange a u (dayjs_object (startOf_day w))
    (dayjs_object (endOf_day (add_day (startOf_day w) 6)))")
  case None
  then show ?thesis by (simp add: summarizeWeek_def Let_def)
next
  case (Some sm)
  then have "\<forall>c\<in>set (s_entries sm). message_content c \<noteq> None"
    using summarizeRange_entries assms by blast
  then obtain bs where "extractBlockers (s_entries sm) = Inr bs"
    using extractBlockers_total by blast
  then show ?thesis using Some by (simp add: summarizeWeek_def Let_def)
qed

lemma summarizeMonth_total:
  assumes "\<forall>c\<in>set (checkins a). message_content c \<noteq> None"
  shows "\<exists>r. summarizeMonth a u m = Inr r"
proof (cases "summarizeRange a u (dayjs_object (startOf_month m)) (dayjs_object (endOf_month m))")
  case None
  then show ?thesis by (simp add: summarizeMonth_def Let_def)
next
  case (Some sm)
  then have "\<forall>c\<in>set (s_entries sm). message_content c \<noteq> None"
    using summarizeRange_entries assms by blast
  then obtain bs where "extractBlockers (s_entries sm) = Inr bs"
    using extractBlockers_total by blast
  then show ?thesis using Some by (simp add: summarizeMonth_def Let_def)
qed

lemma generateDashboard_rejects:
  assumes "dashboard_request_invalid userId tf"
  shows "\<exists>msg. generateDashboard a now userId userName tf = Inl (Error msg)"
  using assms
  by (auto simp: dashboard_request_invalid_def generateDashboard_def Let_def or_else_def
      split: if_splits option.splits)

lemma generateDashboard_accepts:
  assumes v: "\<not> dashboard_request_invalid userId tf"
    and t: "\<forall>c\<in>set (checkins a). message_content c \<noteq> None"
  shows "\<exists>d. generateDashboard a now userId userName tf = Inr d"
proof -
  from v obtain f ty where f: "truthy userId" "tf = Some f" "tf_type f = Some ty" "ty \<noteq> []"
    by (auto simp: dashboard_request_invalid_def split: if_splits option.splits)
  from v f consider
      (daily) "toLowerCase ty = ''daily''" "or_else (tf_date f) (tf_start f) \<noteq> None"
    | (weekly) "toLowerCase ty = ''weekly''"
    | (monthly) "toLowerCase ty = ''monthly''"
    by (auto simp: dashboard_request_invalid_def or_else_def split: option.splits)
  then show ?thesis
  proof cases
    case daily
    then show ?thesis using f
      by (auto simp: generateDashboard_def Let_def split: option.splits)
  next
    case weekly
    obtain r where "summarizeWeek a userId
        (case or_else (tf_start f) (tf_date f) of
           Some startValue \<Rightarrow> startOf_isoWeek startValue
         | None \<Rightarrow> startOf_isoWeek (Valid now)) = Inr r"
      using summarizeWeek_total [OF t] by blast
    then show ?thesis using f weekly
      by (simp add: generateDashboard_def Let_def)
  next
    case monthly
    obtain r where "summarizeMonth a userId
        (case or_else (tf_month f) (or_else (tf_start f) (tf_date f)) of
           Some v \<Rightarrow> v
         | None \<Rightarrow> dayjs_of_string (ISO_DATE (Valid now))) = Inr r"
      using summarizeMonth_total [OF t] by blast
    then show ?thesis using f monthly
      by (simp add: generateDashboard_def Let_def)
  qed
qed


text \<open>
  C4, amended. \<open>generateDashboard\<close> raises an Error when the user id is missing, or the
  timeframe has no type, or the type in lower case is daily and neither a date nor a
  start value is present, or the type in lower case is none of daily, weekly and
  monthly. In every other case, when every check-in of the agent has a text, it returns
  a dashboard without raising.
\<close>

theorem generateDashboard_errors:
  "(dashboard_request_invalid userId tf \<longrightarrow>
      (\<exists>msg. generateDashboard a now userId userName tf = Inl (Error msg)))
   \<and> (\<not> dashboard_request_invalid userId tf
        \<and> (\<forall>c\<in>set (checkins a). message_content c \<noteq> None) \<longrightarrow>
      (\<exists>d. generateDashboard a now userId userName tf = Inr d))"
  using generateDashboard_rejects [of userId tf a now userName]
    generateDashboard_accepts [of userId tf a now userName]
  by blast

theorem generateDashboard_errors_witness:
  "dashboard_request_invalid (Some ''alice'')
      (Some \<lparr>tf_type = Some ''yearly'', tf_date = None, tf_start = None, tf_month = None\<rparr>)
   \<and> generateDashboard example_agent 1727900000000 (Some ''alice'') (Some ''Alice'')
        (Some \<lparr>tf_type = Some ''yearly'', tf_date = None, tf_start = None, tf_month = None\<rparr>)
       = Inl (Error ''Unsupported timeframe type: yearly'')
   \<and> \<not> dashboard_request_invalid (Some ''alice'')
      (Some \<lparr>tf_type = Some ''Weekly'', tf_date = None, tf_start = Some (Valid 1727740800000),
              tf_month = None\<rparr>)
   \<and> list_all (\<lambda>c. message_content c \<noteq> None) (checkins example_agent)
   \<and> \<not> isl (generateDashboard example_agent 1727900000000 (Some ''alice'') (Some ''Alice'')
        (Some \<lparr>tf_type = Some ''Weekly'', tf_date = None, tf_start = Some (Valid 1727740800000),
                tf_month = None\<rparr>))"
proof -
  let ?bad = "Some \<lparr>tf_type = Some ''yearly'', tf_date = None, tf_start = None, tf_month = None\<rparr>"
  let ?good = "Some \<lparr>tf_type = Some ''Weekly'', tf_date = None,
    tf_start = Some (Valid 1727740800000), tf_month = None\<rparr>"
  have b: "dashboard_request_invalid (Some ''alice'') ?bad" by code_simp
  have e: "generateDashboard example_agent 1727900000000 (Some ''alice'') (Some ''Alice'') ?bad
       = Inl (Error ''Unsupported timeframe type: yearly'')"
    by code_simp
  have g: "\<not> dashboard_request_invalid (Some ''alice'') ?good" by code_simp
  have l: "list_all (\<lambda>c. message_content c \<noteq> None) (checkins example_agent)" by code_simp
  then have t: "\<forall>c\<in>set (checkins example_agent). message_content c \<noteq> None"
    by (simp add: list_all_iff)
  from generateDashboard_errors [of "Some ''alice''" ?good example_agent 1727900000000 "Some ''Alice''"] g t
  obtain d where "generateDashboard example_agent 1727900000000 (Some ''alice'') (Some ''Alice'') ?good
      = Inr d"
    by blast
  then show ?thesis using b e g l by simp
qed

theorem generateDashboard_counterexample:
  "claimed_request_invalid (Some ''alice'')
      (Some \<lparr>tf_type = Some ''DAILY'', tf_date = Some (Valid 1727740800000), tf_start = None,
              tf_month = None\<rparr>)
   \<and> \<not> isl (generateDashboard example_agent 1727900000000 (Some ''alice'') (Some ''Alice'')
        (Some \<lparr>tf_type = Some ''DAILY'', tf_date = Some (Valid 1727740800000), tf_start = None,
                tf_month = None\<rparr>))
   \<and> \<not> claimed_request_invalid (Some ''alice'')
      (Some \<lparr>tf_type = Some ''weekly'', tf_date = None, tf_start = Some (Valid 1727740800000),
              tf_month = None\<rparr>)
   \<and> generateDashboard textless_agent 1727900000000 (Some ''alice'') (Some ''Alice'')
        (Some \<lparr>tf_type = Some ''weekly'', tf_date = None, tf_start = Some (Valid 1727740800000),
                tf_month = None\<rparr>) = Inl TypeError"
  by code_simp

text \<open>
  The interpreter throws only through a student without a name, a display name that
  the empty object inherits, or a check-in without text: without them every question
  has an answer.
\<close>

lemma find_by_name_total:
  "\<forall>s\<in>set ss. student_name s \<noteq> None \<Longrightarrow> \<exists>r. find_by_name n ss = Inr r"
  by (induction ss) auto

lemma group_entries_total:
  "\<forall>c\<in>set es. (case user_name c of None \<Rightarrow> True | Some n \<Rightarrow> n \<notin> set Object_prototype_keys) \<Longrightarrow>
   \<exists>g. group_entries es grouped = Inr g"
proof (induction es arbitrary: grouped)
  case Nil
  then show ?case by simp
next
  case (Cons c es)
  have u: "''undefined'' \<notin> set Object_prototype_keys"
    by (simp add: Object_prototype_keys_def)
  have "(case user_name c of None \<Rightarrow> ''undefined'' | Some n \<Rightarrow> n) \<notin> set Object_prototype_keys"
    using Cons.prems u by (cases "user_name c") simp_all
  moreover have "\<forall>c\<in>set es. (case user_name c of None \<Rightarrow> True | Some n \<Rightarrow> n \<notin> set Object_prototype_keys)"
    using Cons.prems by simp
  ultimately show ?case
    using Cons.IH by (simp add: Let_def)
qed

lemma getCheckinsByDateRange_subset: "set (getCheckinsByDateRange a s e) \<subseteq> set (checkins a)"
  by (auto simp: getCheckinsByDateRange_def)

lemma answerQuestion_returns:
  assumes names: "\<forall>s\<in>set (getAllStudents a). student_name s \<noteq> None"
    and texts: "\<forall>c\<in>set (checkins a). message_content c \<noteq> None"
    and keys: "\<forall>c\<in>set (checkins a).
        (case user_name c of None \<Rightarrow> True | Some n \<Rightarrow> n \<notin> set Object_prototype_keys)"
  shows "\<exists>r. answerQuestion a now question = Inr r"
proof -
  have q: "\<exists>r. answerQualityQuestion a now question = Inr r"
  proof -
    have "\<exists>r. getUserByName a n = Inr r" for n
      using find_by_name_total [OF names] by (simp add: getUserByName_def Let_def)
    then have g: "getUserByName a n \<noteq> Inl e" for n e
      by (metis sum.distinct(1))
    show ?thesis
      unfolding answerQualityQuestion_def Let_def
      by (simp add: g split: option.splits sum.splits)
  qed
  have d: "\<exists>r. answerDateRangeListing a now question = Inr r"
  proof -
    have "\<exists>g. group_entries (getCheckinsByDateRange a s e) [] = Inr g" for s e
      using group_entries_total keys getCheckinsByDateRange_subset by blast
    then have g: "group_entries (getCheckinsByDateRange a s e) [] \<noteq> Inl err" for s e err
      by (metis sum.distinct(1))
    show ?thesis
      unfolding answerDateRangeListing_def Let_def
      by (simp add: g split: option.splits sum.splits prod.splits)
  qed
  have b: "\<exists>r. answerBlockersThisWeek a now = Inr r"
  proof -
    have "\<exists>g. extractBlockers (getCheckinsByDateRange a s e) = Inr g" for s e
      using extractBlockers_total texts getCheckinsByDateRange_subset by blast
    then have g: "extractBlockers (getCheckinsByDateRange a s e) \<noteq> Inl err" for s e err
      by (metis sum.distinct(1))
    show ?thesis
      unfolding answerBlockersThisWeek_def Let_def
      by (simp add: g split: sum.splits)
  qed
  show ?thesis
    unfolding answerQuestion_def Let_def using q d b by simp
qed

text \<open>
  C5. The claim is that \<open>answerQuestion\<close> never throws. It does: the question about
  the quality of a named student's check-in throws a TypeError when the roster holds an
  entry that gives only an e-mail address, because that entry gets no name and
  \<open>getUserByName\<close> lowers the name of every student; and the listing between two dates
  throws a TypeError when a check-in in the window has the display name
  \<open>constructor\<close>, although its text and its name are strings.
\<close>

theorem answerQuestion_throws:
  "answerQuestion email_only_agent 1727900000000
      ''What is the quality of Jane's check-in today?'' = Inl TypeError
   \<and> list_all (\<lambda>c. message_content c \<noteq> None \<and> user_name c \<noteq> None) (checkins constructor_agent)
   \<and> answerQuestion constructor_agent 1727900000000
      ''Who checked in between 2024-10-01 and 2024-10-02?'' = Inl TypeError"
  by code_simp

end
